theory Spec2Isabelle
  imports Main "HOL-Library.Word" "HOL-Library.Char_ord" "HOL-Library.List_Lexorder" "HOL-Library.Sublist"
begin

section \<open>Values of the host language\<close>

text \<open>
  The ledger is TypeScript running in a browser. Three kinds of data occur:
  \<^item> untyped values (\<open>any\<close>: the input of a span body, parsed model output, the object
    that \<open>JSON.stringify\<close> serialises). They are modelled by \<open>json\<close>; an object is the
    list of its own properties in the order in which they were created;
  \<^item> typed structures (\<open>Span\<close>, \<open>Contract\<close>, \<open>Identity\<close>, \<open>SpanFilter\<close>), modelled by
    records whose optional fields are options;
  \<^item> byte arrays (\<open>Uint8Array\<close>), modelled by lists of 8-bit words.
  A \<open>char\<close> stands for one UTF-16 code unit below 256; strings compare by code units,
  as the operators \<open>>=\<close> and \<open><=\<close> of the source and the keys of IndexedDB do.
\<close>

type_synonym byte = "8 word"

datatype json =
    JUndefined
  | JNull
  | JBool bool
  | JNumber int
  | JString string
  | JArray "json list"
  | JObject "(string \<times> json) list"

text \<open>Truthiness, as an \<open>if\<close> or a conditional expression of the source tests it.\<close>

fun truthy :: "json \<Rightarrow> bool" where
  "truthy JUndefined = False"
| "truthy JNull = False"
| "truthy (JBool b) = b"
| "truthy (JNumber n) = (n \<noteq> 0)"
| "truthy (JString s) = (s \<noteq> [])"
| "truthy (JArray xs) = True"
| "truthy (JObject kvs) = True"

text \<open>
  Property access \<open>v.k\<close> for the keys the source reads (none of them is a built-in
  property of strings or arrays): the value of the property on an object, \<open>undefined\<close>
  on anything else. On \<open>undefined\<close> and \<open>null\<close> the plain access throws a TypeError;
  the optional chain \<open>v?.k\<close> yields \<open>undefined\<close> there. The callers below choose.
\<close>

fun get_prop :: "string \<Rightarrow> json \<Rightarrow> json" where
  "get_prop k (JObject kvs) = (case map_of kvs k of Some v \<Rightarrow> v | None \<Rightarrow> JUndefined)"
| "get_prop k v = JUndefined"

subsection \<open>Numbers and hexadecimal digits\<close>

definition hex_digit :: "nat \<Rightarrow> char" where
  "hex_digit n = ''0123456789abcdef'' ! n"

fun nat_to_string :: "nat \<Rightarrow> string" where
  "nat_to_string n =
     (if n < 10 then [hex_digit n] else nat_to_string (n div 10) @ [hex_digit (n mod 10)])"

declare nat_to_string.simps [simp del]

text \<open>
  \<open>JNumber\<close> holds the numbers that are integers of magnitude below \<open>10^21\<close>: these print
  in plain decimal. A number with a fraction, or one that prints with an exponent, is not
  a value of \<open>json\<close>; no statement below is about such a number.
\<close>

definition int_to_string :: "int \<Rightarrow> string" where
  "int_to_string i = (if i < 0 then CHR ''-'' # nat_to_string (nat (- i)) else nat_to_string (nat i))"

subsection \<open>Objects\<close>

text \<open>
  An object is the list of its own properties in the order in which they were created.
  The engine enumerates them with the keys that are array indices first, in ascending
  numeric order, and the other keys after them in the order of creation
  (\<open>OrdinaryOwnPropertyKeys\<close>); every operation that goes through the properties of an
  object (\<open>JSON.stringify\<close>, a spread, \<open>Object.values\<close>) sees them in that order. An array
  index is the canonical decimal numeral of a number below \<open>2^32 - 1\<close>.
\<close>

definition is_digit :: "char \<Rightarrow> bool" where
  "is_digit c = (48 \<le> (of_char c :: nat) \<and> (of_char c :: nat) \<le> 57)"

definition digits_value :: "string \<Rightarrow> nat" where
  "digits_value s = foldl (\<lambda>n c. 10 * n + (of_char c - 48)) 0 s"

fun is_array_index :: "string \<Rightarrow> bool" where
  "is_array_index [] = False"
| "is_array_index (c # cs) =
     (if c = CHR ''0'' then cs = []
      else list_all is_digit (c # cs) \<and> digits_value (c # cs) < 4294967295)"

definition own_properties :: "(string \<times> 'a) list \<Rightarrow> (string \<times> 'a) list" where
  "own_properties kvs =
     sort_key (\<lambda>kv. digits_value (fst kv)) (filter (\<lambda>kv. is_array_index (fst kv)) kvs)
     @ filter (\<lambda>kv. \<not> is_array_index (fst kv)) kvs"

text \<open>
  \<open>{...v}\<close>: the own enumerable properties of a value, in the order of enumeration: those
  of an object, the elements of an array and the characters of a string under their
  indices, nothing for \<open>undefined\<close>, \<open>null\<close>, booleans and numbers.
\<close>

fun spread :: "json \<Rightarrow> (string \<times> json) list" where
  "spread (JObject kvs) = own_properties kvs"
| "spread (JArray xs) = zip (map nat_to_string [0..<length xs]) xs"
| "spread (JString s) = zip (map nat_to_string [0..<length s]) (map (\<lambda>c. JString [c]) s)"
| "spread v = []"

text \<open>
  Defining a property: an existing key keeps its place in the order of creation and takes
  the new value, a new key goes last.
\<close>

fun obj_set :: "string \<Rightarrow> json \<Rightarrow> (string \<times> json) list \<Rightarrow> (string \<times> json) list" where
  "obj_set k v [] = [(k, v)]"
| "obj_set k v ((k', v') # kvs) = (if k' = k then (k, v) # kvs else (k', v') # obj_set k v kvs)"

text \<open>The rest pattern \<open>{k, ...rest}\<close>: every property but \<open>k\<close>, order kept.\<close>

definition obj_rest :: "string \<Rightarrow> (string \<times> json) list \<Rightarrow> (string \<times> json) list" where
  "obj_rest k kvs = filter (\<lambda>kv. fst kv \<noteq> k) kvs"

text \<open>\<open>Object.values\<close>: the values of an object or the elements of an array, in order.\<close>

fun Object_values :: "json \<Rightarrow> json list" where
  "Object_values (JObject kvs) = map snd (own_properties kvs)"
| "Object_values (JArray xs) = xs"
| "Object_values (JString s) = map (\<lambda>c. JString [c]) s"
| "Object_values v = []"

text \<open>\<open>Array.prototype.join\<close> on an array of strings.\<close>

fun join :: "string \<Rightarrow> string list \<Rightarrow> string" where
  "join sep [] = []"
| "join sep [x] = x"
| "join sep (x # y # ys) = x @ sep @ join sep (y # ys)"

text \<open>\<open>b.toString(16).padStart(2, '0')\<close> for each byte, concatenated.\<close>

definition byteToHex :: "byte \<Rightarrow> string" where
  "byteToHex b = [hex_digit (unat b div 16), hex_digit (unat b mod 16)]"

definition bytesToHex :: "byte list \<Rightarrow> string" where
  "bytesToHex bytes = concat (map byteToHex bytes)"

subsection \<open>JSON.stringify\<close>

text \<open>
  \<open>JSON.stringify(v, null, 0)\<close> as ECMAScript defines it, for the values of \<open>json\<close>:
  no indentation, the properties of an object in the order of enumeration, a property
  whose value is \<open>undefined\<close> left out, \<open>undefined\<close> inside an array printed as \<open>null\<close>.
  Nothing in it sorts the keys that are not array indices.
\<close>

definition quote_char :: "char \<Rightarrow> string" where
  "quote_char c =
     (let n = (of_char c :: nat) in
      if n = 8 then [CHR 0x5C, CHR ''b'']
      else if n = 9 then [CHR 0x5C, CHR ''t'']
      else if n = 10 then [CHR 0x5C, CHR ''n'']
      else if n = 12 then [CHR 0x5C, CHR ''f'']
      else if n = 13 then [CHR 0x5C, CHR ''r'']
      else if n = 34 then [CHR 0x5C, CHR 0x22]
      else if n = 92 then [CHR 0x5C, CHR 0x5C]
      else if n < 32 then [CHR 0x5C, CHR ''u'', CHR ''0'', CHR ''0'', hex_digit (n div 16), hex_digit (n mod 16)]
      else [c])"

definition QuoteJSONString :: "string \<Rightarrow> string" where
  "QuoteJSONString s = [CHR 0x22] @ concat (map quote_char s) @ [CHR 0x22]"

definition array_element :: "string option \<Rightarrow> string" where
  "array_element r = (case r of None \<Rightarrow> ''null'' | Some t \<Rightarrow> t)"

definition object_member :: "string \<times> string option \<Rightarrow> string list" where
  "object_member kr = (case snd kr of None \<Rightarrow> [] | Some t \<Rightarrow> [QuoteJSONString (fst kr) @ '':'' @ t])"

primrec SerializeJSONProperty :: "json \<Rightarrow> string option" where
  "SerializeJSONProperty JUndefined = None"
| "SerializeJSONProperty JNull = Some ''null''"
| "SerializeJSONProperty (JBool b) = Some (if b then ''true'' else ''false'')"
| "SerializeJSONProperty (JNumber n) = Some (int_to_string n)"
| "SerializeJSONProperty (JString s) = Some (QuoteJSONString s)"
| "SerializeJSONProperty (JArray xs) =
     Some (''['' @ join '','' (map array_element (map SerializeJSONProperty xs)) @ '']'')"
| "SerializeJSONProperty (JObject kvs) =
     Some (''{'' @ join '','' (concat (map object_member
        (own_properties (map (map_prod id SerializeJSONProperty) kvs)))) @ ''}'')"

definition JSON_stringify :: "json \<Rightarrow> string option" where
  "JSON_stringify v = SerializeJSONProperty v"

section \<open>Primitives of the platform\<close>

text \<open>
  The source calls the BLAKE3 function of a library, Web Crypto (Ed25519, PBKDF2,
  AES-GCM), \<open>TextEncoder\<close>/\<open>TextDecoder\<close>, \<open>btoa\<close>/\<open>atob\<close>, \<open>JSON.parse\<close> and
  \<open>String.prototype.localeCompare\<close>. None of them is code of the repository; each is a
  field of \<open>platform\<close>, and every definition that needs one takes the platform as its
  first argument. Key material is a number; \<open>aes_gcm_decrypt\<close> and \<open>atob\<close> and
  \<open>JSON_parse\<close> return \<open>None\<close> where the browser throws.
\<close>

record platform =
  blake3 :: "byte list \<Rightarrow> byte list"
  text_encode :: "string \<Rightarrow> byte list"
  text_decode :: "byte list \<Rightarrow> string"
  ed25519_sign :: "nat \<Rightarrow> byte list \<Rightarrow> byte list"
  ed25519_verify :: "nat \<Rightarrow> byte list \<Rightarrow> byte list \<Rightarrow> bool"
  pbkdf2 :: "byte list \<Rightarrow> byte list \<Rightarrow> nat \<Rightarrow> string \<Rightarrow> nat \<Rightarrow> nat"
  aes_gcm_encrypt :: "nat \<Rightarrow> byte list \<Rightarrow> byte list \<Rightarrow> byte list"
  aes_gcm_decrypt :: "nat \<Rightarrow> byte list \<Rightarrow> byte list \<Rightarrow> byte list option"
  btoa :: "string \<Rightarrow> string"
  atob :: "string \<Rightarrow> string option"
  JSON_parse :: "string \<Rightarrow> json option"
  localeCompare :: "string \<Rightarrow> string \<Rightarrow> int"

section \<open>Content addressing (crypto.ts)\<close>

definition calculateHash :: "platform \<Rightarrow> string \<Rightarrow> string" where
  "calculateHash P data = ''blake3:'' @ bytesToHex (blake3 P (text_encode P data))"

text \<open>
  The object literal of \<open>calculateSpanHash\<close>: the properties of the span, then \<open>this\<close>
  with its hash blanked, then \<open>confirmed_by\<close> (a copy with the signature blanked, or
  \<open>undefined\<close>); after it, the signature is taken out by a rest pattern when it is the
  empty string.
\<close>

definition spanForHashing :: "json \<Rightarrow> json" where
  "spanForHashing span =
     (let withThis = obj_set ''this'' (JObject (obj_set ''hash'' (JString []) (spread (get_prop ''this'' span)))) (spread span);
          confirmed = (if truthy (get_prop ''confirmed_by'' span)
                       then JObject (obj_set ''signature'' (JString []) (spread (get_prop ''confirmed_by'' span)))
                       else JUndefined);
          copy = obj_set ''confirmed_by'' confirmed withThis
      in if get_prop ''signature'' (get_prop ''confirmed_by'' (JObject copy)) = JString []
         then JObject (obj_set ''confirmed_by'' (JObject (obj_rest ''signature'' (spread confirmed))) copy)
         else JObject copy)"

definition calculateSpanHash :: "platform \<Rightarrow> json \<Rightarrow> string" where
  "calculateSpanHash P span =
     calculateHash P (case JSON_stringify (spanForHashing span) of Some jsonString \<Rightarrow> jsonString | None \<Rightarrow> [])"

section \<open>The typed structures (types/span.ts, types/contract.ts, types/database.ts)\<close>

text \<open>
  Field names are those of the interfaces, except where an Isabelle name is taken:
  \<open>id\<close> is \<open>id'\<close>, \<open>output\<close> is \<open>output'\<close>; the fields of \<open>Contract\<close> that \<open>Span\<close> or the
  database also has carry the prefix \<open>c_\<close>, those of \<open>SpanFilter\<close> the prefix \<open>f_\<close>.
  The optional members of \<open>SpanBody\<close> have type \<open>any\<close> or hold untyped data; they are
  \<open>json\<close> values, \<open>JUndefined\<close> when absent.
\<close>

record SpanHash =
  hash :: string
  version :: string

record SpanConfirmation =
  signature :: string
  domain :: string
  timestamp :: string
  signer_id :: string

record SpanBody =
  action :: string
  input :: json
  output' :: json
  rules :: json
  metadata :: json

record Span =
  id' :: string
  trace_id :: string
  parent_id :: "string option"
  type :: string
  entity :: string
  body :: SpanBody
  started_at :: string
  completed_at :: "string option"
  duration_ms :: "int option"
  this :: SpanHash
  confirmed_by :: "SpanConfirmation option"

datatype ContractStatus = Draft | Active | Completed | Cancelled

record Contract =
  c_id :: string
  title :: json
  description :: json
  parties :: "json list"
  status :: ContractStatus
  created_at :: string
  updated_at :: string
  c_completed_at :: "string option"
  c_spans :: "string list"
  c_metadata :: json

text \<open>
  A \<open>CryptoKey\<close> is a handle on key material with a type. \<open>generateKeyPair\<close> asks for
  the usages \<open>sign\<close> and \<open>verify\<close>; Web Crypto gives the private key of the pair the
  usage \<open>sign\<close> only and the public key the usage \<open>verify\<close> only.
\<close>

datatype CryptoKey = PublicKey nat | PrivateKey nat

record Identity =
  user_id :: string
  public_key :: nat
  private_key_handle :: CryptoKey
  i_created_at :: string

record SpanFilter =
  f_trace_id :: "string option"
  f_type :: "string option"
  f_entity :: "string option"
  f_user_id :: "string option"
  f_from :: "string option"
  f_to :: "string option"
  f_limit :: "int option"

text \<open>What the source can throw or reject with, by the name of the exception.\<close>

datatype exn = ConstraintError | InvalidAccessError | OperationError | InvalidCharacterError | TypeError

subsection \<open>A typed span as the object it is at run time\<close>

text \<open>
  \<open>JSON.stringify\<close> sees an object, not a type. \<open>Span_obj\<close> is the object of a typed span
  with its keys in the order in which the span builders of ledger.ts write them and
  \<open>appendToLedger\<close> adds \<open>confirmed_by\<close>; an absent optional member is no property.
  \<open>calculateSpanHashT\<close> is therefore the hash of the spans that have their keys in this
  order; a span object with its keys in another order is a value of \<open>json\<close>, and its hash is
  \<open>calculateSpanHash\<close>.
\<close>

definition opt_member :: "string \<Rightarrow> ('a \<Rightarrow> json) \<Rightarrow> 'a option \<Rightarrow> (string \<times> json) list" where
  "opt_member k f v = (case v of None \<Rightarrow> [] | Some x \<Rightarrow> [(k, f x)])"

definition SpanBody_obj :: "SpanBody \<Rightarrow> json" where
  "SpanBody_obj b = JObject [(''action'', JString (action b)), (''input'', input b),
     (''output'', output' b), (''rules'', rules b), (''metadata'', metadata b)]"

definition SpanHash_obj :: "SpanHash \<Rightarrow> json" where
  "SpanHash_obj h = JObject [(''hash'', JString (hash h)), (''version'', JString (version h))]"

definition SpanConfirmation_obj :: "SpanConfirmation \<Rightarrow> json" where
  "SpanConfirmation_obj c = JObject [(''signature'', JString (signature c)), (''domain'', JString (domain c)),
     (''timestamp'', JString (timestamp c)), (''signer_id'', JString (signer_id c))]"

definition Span_obj :: "Span \<Rightarrow> json" where
  "Span_obj s = JObject
     ([(''id'', JString (id' s)), (''trace_id'', JString (trace_id s))]
      @ opt_member ''parent_id'' JString (parent_id s)
      @ [(''type'', JString (type s)), (''entity'', JString (entity s)),
         (''body'', SpanBody_obj (body s)), (''started_at'', JString (started_at s))]
      @ opt_member ''completed_at'' JString (completed_at s)
      @ opt_member ''duration_ms'' JNumber (duration_ms s)
      @ [(''this'', SpanHash_obj (this s))]
      @ opt_member ''confirmed_by'' SpanConfirmation_obj (confirmed_by s))"

definition calculateSpanHashT :: "platform \<Rightarrow> Span \<Rightarrow> string" where
  "calculateSpanHashT P span = calculateSpanHash P (Span_obj span)"

text \<open>The members of the object of a span that come before \<open>this\<close>.\<close>

definition span_front :: "Span \<Rightarrow> (string \<times> json) list" where
  "span_front s = [(''id'', JString (id' s)), (''trace_id'', JString (trace_id s))]
      @ opt_member ''parent_id'' JString (parent_id s)
      @ [(''type'', JString (type s)), (''entity'', JString (entity s)),
         (''body'', SpanBody_obj (body s)), (''started_at'', JString (started_at s))]
      @ opt_member ''completed_at'' JString (completed_at s)
      @ opt_member ''duration_ms'' JNumber (duration_ms s)"

section \<open>Signing and verification (crypto.ts)\<close>

text \<open>
  \<open>crypto.subtle.sign\<close> and \<open>crypto.subtle.verify\<close> check the key before they compute:
  signing needs a private key with the usage \<open>sign\<close>, verifying a public key with the
  usage \<open>verify\<close>; with any other key the promise rejects with an InvalidAccessError.
\<close>

definition subtle_sign :: "platform \<Rightarrow> CryptoKey \<Rightarrow> byte list \<Rightarrow> exn + byte list" where
  "subtle_sign P key bytes =
     (case key of PrivateKey k \<Rightarrow> Inr (ed25519_sign P k bytes) | PublicKey k \<Rightarrow> Inl InvalidAccessError)"

definition subtle_verify :: "platform \<Rightarrow> CryptoKey \<Rightarrow> byte list \<Rightarrow> byte list \<Rightarrow> exn + bool" where
  "subtle_verify P key sigBytes bytes =
     (case key of PublicKey k \<Rightarrow> Inr (ed25519_verify P k sigBytes bytes) | PrivateKey k \<Rightarrow> Inl InvalidAccessError)"

definition sign :: "platform \<Rightarrow> string \<Rightarrow> CryptoKey \<Rightarrow> exn + string" where
  "sign P data privateKey =
     (case subtle_sign P privateKey (text_encode P data) of
        Inl e \<Rightarrow> Inl e
      | Inr sig \<Rightarrow> Inr (''ed25519:'' @ bytesToHex sig))"

text \<open>\<open>signSpan\<close> fills an empty hash of its argument in place; the span is returned with the result.\<close>

definition signSpan :: "platform \<Rightarrow> Span \<Rightarrow> CryptoKey \<Rightarrow> (exn + string) \<times> Span" where
  "signSpan P span privateKey =
     (let span1 = (if hash (this span) = [] then span\<lparr>this := (this span)\<lparr>hash := calculateSpanHashT P span\<rparr>\<rparr> else span)
      in (sign P (hash (this span1)) privateKey, span1))"

text \<open>
  \<open>parseInt(s, 16)\<close>: leading white space, a sign, a prefix \<open>0x\<close>, then the longest run
  of hexadecimal digits; \<open>None\<close> is NaN. \<open>hexToBytes\<close> allocates \<open>hex.length / 2\<close> bytes
  (the fraction is dropped), reads two characters for each, and stores NaN as 0 and any
  other number modulo 256; the write for a last single character is out of range and lost.
\<close>

definition StrWhiteSpaceChar :: "char \<Rightarrow> bool" where
  "StrWhiteSpaceChar c = ((of_char c :: nat) \<in> {9, 10, 11, 12, 13, 32, 160})"

definition hex_value :: "char \<Rightarrow> nat option" where
  "hex_value c =
     (let n = (of_char c :: nat) in
      if 48 \<le> n \<and> n \<le> 57 then Some (n - 48)
      else if 97 \<le> n \<and> n \<le> 102 then Some (n - 87)
      else if 65 \<le> n \<and> n \<le> 70 then Some (n - 55)
      else None)"

definition strip_sign :: "string \<Rightarrow> bool \<times> string" where
  "strip_sign t = (case t of [] \<Rightarrow> (False, [])
     | c # r \<Rightarrow> if c = CHR ''-'' then (True, r) else if c = CHR ''+'' then (False, r) else (False, c # r))"

definition strip_0x :: "string \<Rightarrow> string" where
  "strip_0x u = (case u of a # b # r \<Rightarrow> if a = CHR ''0'' \<and> (b = CHR ''x'' \<or> b = CHR ''X'') then r else u | _ \<Rightarrow> u)"

definition parseInt16 :: "string \<Rightarrow> int option" where
  "parseInt16 s =
     (let (neg, u) = strip_sign (dropWhile StrWhiteSpaceChar s);
          ds = takeWhile (\<lambda>c. hex_value c \<noteq> None) (strip_0x u);
          n = foldl (\<lambda>acc c. 16 * acc + (case hex_value c of Some d \<Rightarrow> d | None \<Rightarrow> 0)) 0 ds
      in if ds = [] then None else Some (if neg then - int n else int n))"

definition toUint8 :: "int option \<Rightarrow> byte" where
  "toUint8 r = (case r of None \<Rightarrow> 0 | Some n \<Rightarrow> of_int n)"

definition hexToBytes :: "string \<Rightarrow> byte list" where
  "hexToBytes hex = map (\<lambda>j. toUint8 (parseInt16 (take 2 (drop (2 * j) hex)))) [0 ..< length hex div 2]"

definition startsWith :: "string \<Rightarrow> string \<Rightarrow> bool" where
  "startsWith s p = (take (length p) s = p)"

text \<open>\<open>verify\<close> catches whatever is thrown inside it and answers \<open>false\<close>.\<close>

definition verify :: "platform \<Rightarrow> string \<Rightarrow> string \<Rightarrow> CryptoKey \<Rightarrow> bool" where
  "verify P data sig publicKey =
     (let bytes = text_encode P data;
          sigHex = (if startsWith sig ''ed25519:'' then drop 8 sig else sig);
          sigBytes = hexToBytes sigHex
      in case subtle_verify P publicKey sigBytes bytes of Inr ok \<Rightarrow> ok | Inl e \<Rightarrow> False)"

definition verifySpan :: "platform \<Rightarrow> Span \<Rightarrow> CryptoKey \<Rightarrow> bool" where
  "verifySpan P span publicKey =
     (case confirmed_by span of
        None \<Rightarrow> False
      | Some c \<Rightarrow>
          if signature c = [] then False
          else if hash (this span) \<noteq> calculateSpanHashT P span then False
          else verify P (hash (this span)) (signature c) publicKey)"

section \<open>The ledger store (database.ts)\<close>

text \<open>
  An IndexedDB object store holds its records in the order of their keys; \<open>add\<close> fails
  with a ConstraintError when the key is taken and changes nothing then; \<open>put\<close>
  replaces; \<open>getAll\<close> on an index with one key returns the records with that index
  key in the order of their primary keys. The indices are maintained by the engine
  inside the same request, so they are functions of the store.
  Of the object stores of the database only those the ledger operations read are kept.
\<close>

record database =
  spans :: "Span list"
  contracts :: "Contract list"
  identity :: "Identity option"

definition idb_add :: "('a \<Rightarrow> string) \<Rightarrow> 'a \<Rightarrow> 'a list \<Rightarrow> 'a list option" where
  "idb_add key x xs = (if key x \<in> set (map key xs) then None else Some (insort_key key x xs))"

definition idb_put :: "('a \<Rightarrow> string) \<Rightarrow> 'a \<Rightarrow> 'a list \<Rightarrow> 'a list" where
  "idb_put key x xs = insort_key key x (filter (\<lambda>y. key y \<noteq> key x) xs)"

definition idb_get :: "('a \<Rightarrow> string) \<Rightarrow> string \<Rightarrow> 'a list \<Rightarrow> 'a option" where
  "idb_get key k xs = find (\<lambda>x. key x = k) xs"

definition index_getAll :: "('a \<Rightarrow> string option) \<Rightarrow> string \<Rightarrow> 'a list \<Rightarrow> 'a list" where
  "index_getAll keyPath k xs = filter (\<lambda>x. keyPath x = Some k) xs"

text \<open>The five indices of the store \<open>spans\<close>, by their key paths.\<close>

definition by_trace :: "Span \<Rightarrow> string option" where
  "by_trace s = Some (trace_id s)"

definition by_type :: "Span \<Rightarrow> string option" where
  "by_type s = Some (type s)"

definition by_entity :: "Span \<Rightarrow> string option" where
  "by_entity s = Some (entity s)"

definition by_time :: "Span \<Rightarrow> string option" where
  "by_time s = Some (started_at s)"

definition by_user :: "Span \<Rightarrow> string option" where
  "by_user s = map_option signer_id (confirmed_by s)"

definition appendSpan :: "Span \<Rightarrow> database \<Rightarrow> (exn + unit) \<times> database" where
  "appendSpan span db =
     (case idb_add id' span (spans db) of
        None \<Rightarrow> (Inl ConstraintError, db)
      | Some xs \<Rightarrow> (Inr (), db\<lparr>spans := xs\<rparr>))"

text \<open>
  \<open>Array.prototype.sort\<close> is stable; with a comparator that orders consistently its
  result is the one the insertion below computes: each element, from the right, goes
  before the first element it does not have to follow.
\<close>

fun sort_insert :: "('a \<Rightarrow> 'a \<Rightarrow> int) \<Rightarrow> 'a \<Rightarrow> 'a list \<Rightarrow> 'a list" where
  "sort_insert cmp x [] = [x]"
| "sort_insert cmp x (y # ys) = (if cmp x y \<le> 0 then x # y # ys else y # sort_insert cmp x ys)"

definition Array_sort :: "('a \<Rightarrow> 'a \<Rightarrow> int) \<Rightarrow> 'a list \<Rightarrow> 'a list" where
  "Array_sort cmp xs = foldr (sort_insert cmp) xs []"

text \<open>\<open>xs.slice(0, n)\<close> for an integral \<open>n\<close>: a negative \<open>n\<close> counts from the end.\<close>

definition slice0 :: "int \<Rightarrow> 'a list \<Rightarrow> 'a list" where
  "slice0 n xs = (if n < 0 then take (nat (int (length xs) + n)) xs else take (nat n) xs)"

text \<open>An optional string in a condition: given and not empty.\<close>

definition present :: "string option \<Rightarrow> string option" where
  "present v = (case v of None \<Rightarrow> None | Some s \<Rightarrow> if s = [] then None else Some s)"

definition querySpans :: "platform \<Rightarrow> SpanFilter \<Rightarrow> database \<Rightarrow> Span list" where
  "querySpans P filter' db =
     (let spans0 =
            (case present (f_trace_id filter') of
               Some t \<Rightarrow> index_getAll by_trace t (spans db)
             | None \<Rightarrow>
                (case present (f_type filter') of
                   Some ty \<Rightarrow> index_getAll by_type ty (spans db)
                 | None \<Rightarrow>
                    (case present (f_entity filter') of
                       Some en \<Rightarrow> index_getAll by_entity en (spans db)
                     | None \<Rightarrow> spans db)));
          filtered1 =
            (case present (f_user_id filter') of
               Some u \<Rightarrow> filter (\<lambda>s. map_option signer_id (confirmed_by s) = Some u) spans0
             | None \<Rightarrow> spans0);
          filtered2 =
            (case present (f_from filter') of
               Some fr \<Rightarrow> filter (\<lambda>s. started_at s \<ge> fr) filtered1
             | None \<Rightarrow> filtered1);
          filtered3 =
            (case present (f_to filter') of
               Some to \<Rightarrow> filter (\<lambda>s. started_at s \<le> to) filtered2
             | None \<Rightarrow> filtered2);
          sorted = Array_sort (\<lambda>a b. localeCompare P (started_at b) (started_at a)) filtered3
      in case f_limit filter' of
           None \<Rightarrow> sorted
         | Some n \<Rightarrow> if n = 0 then sorted else slice0 n sorted)"

definition no_filter :: SpanFilter where
  "no_filter = \<lparr>f_trace_id = None, f_type = None, f_entity = None, f_user_id = None,
                f_from = None, f_to = None, f_limit = None\<rparr>"

definition getSpansByTrace :: "platform \<Rightarrow> string \<Rightarrow> database \<Rightarrow> Span list" where
  "getSpansByTrace P traceId db = querySpans P (no_filter\<lparr>f_trace_id := Some traceId\<rparr>) db"

definition saveContract :: "Contract \<Rightarrow> database \<Rightarrow> database" where
  "saveContract contract db = db\<lparr>contracts := idb_put c_id contract (contracts db)\<rparr>"

definition getContract :: "string \<Rightarrow> database \<Rightarrow> Contract option" where
  "getContract k db = idb_get c_id k (contracts db)"

definition getAllContracts :: "platform \<Rightarrow> database \<Rightarrow> Contract list" where
  "getAllContracts P db = Array_sort (\<lambda>a b. localeCompare P (created_at b) (created_at a)) (contracts db)"

definition getIdentity :: "database \<Rightarrow> Identity option" where
  "getIdentity db = identity db"

section \<open>The contract view (ledger.ts)\<close>

text \<open>
  \<open>String(v)\<close> as a template literal and \<open>join\<close> apply it; \<open>join\<close> prints \<open>undefined\<close> and
  \<open>null\<close> as the empty string.
\<close>

definition join_element :: "json \<times> string \<Rightarrow> string" where
  "join_element vs = (if fst vs = JUndefined \<or> fst vs = JNull then [] else snd vs)"

primrec ToString :: "json \<Rightarrow> string" where
  "ToString JUndefined = ''undefined''"
| "ToString JNull = ''null''"
| "ToString (JBool b) = (if b then ''true'' else ''false'')"
| "ToString (JNumber n) = int_to_string n"
| "ToString (JString s) = s"
| "ToString (JArray xs) = join '','' (map join_element (map (\<lambda>x. (x, ToString x)) xs))"
| "ToString (JObject kvs) = ''[object Object]''"

definition Array_join :: "string \<Rightarrow> json list \<Rightarrow> string" where
  "Array_join sep xs = join sep (map (\<lambda>x. join_element (x, ToString x)) xs)"

text \<open>
  \<open>extractContractTitle\<close>: reading \<open>p.name\<close> of a party that is \<open>undefined\<close> or \<open>null\<close>
  throws a TypeError.
\<close>

definition extractContractTitle :: "Span \<Rightarrow> exn + json" where
  "extractContractTitle span =
     (let inp = input (body span) in
      if truthy (get_prop ''title'' inp) then Inr (get_prop ''title'' inp)
      else if truthy (get_prop ''parties'' inp) then
        (let ps = Object_values (get_prop ''parties'' inp) in
         if list_ex (\<lambda>p. p = JUndefined \<or> p = JNull) ps then Inl TypeError
         else Inr (JString (''Contrato entre '' @ Array_join '' e '' (map (get_prop ''name'') ps))))
      else Inr (JString (''Contrato '' @ take 8 (id' span))))"

definition extractContractDescription :: "Span \<Rightarrow> json" where
  "extractContractDescription span =
     (let d = get_prop ''description'' (input (body span)) in
      if truthy d then d else get_prop ''description'' (metadata (body span)))"

text \<open>
  \<open>updateContractFromSpans\<close>; \<open>now\<close> is the reading of the clock. The result is the
  outcome of the call and the database after it.
\<close>

definition updateContractFromSpans :: "platform \<Rightarrow> string \<Rightarrow> string \<Rightarrow> database \<Rightarrow> (exn + unit) \<times> database" where
  "updateContractFromSpans P now traceId db =
     (let spanList = getSpansByTrace P traceId db in
      if length spanList = 0 then (Inr (), db)
      else
        case find (\<lambda>s. type s = ''contract.created'') spanList of
          None \<Rightarrow> (Inr (), db)
        | Some creationSpan \<Rightarrow>
           (case getContract traceId db of
              None \<Rightarrow>
               (case extractContractTitle creationSpan of
                  Inl e \<Rightarrow> (Inl e, db)
                | Inr t \<Rightarrow>
                    (Inr (), saveContract
                       \<lparr>c_id = traceId,
                        title = t,
                        description = extractContractDescription creationSpan,
                        parties = (if truthy (get_prop ''parties'' (input (body creationSpan)))
                                   then Object_values (get_prop ''parties'' (input (body creationSpan)))
                                   else []),
                        status = Active,
                        created_at = started_at creationSpan,
                        updated_at = now,
                        c_completed_at = None,
                        c_spans = map id' spanList,
                        c_metadata = metadata (body creationSpan)\<rparr> db))
            | Some contract \<Rightarrow>
               (let contract1 = contract\<lparr>updated_at := now, c_spans := map id' spanList\<rparr>;
                    cancelledSpan = find (\<lambda>s. type s = ''contract.cancelled'') spanList;
                    completedSpan = find (\<lambda>s. type s = ''contract.completed'') spanList;
                    contract2 =
                      (case cancelledSpan of
                         Some cs \<Rightarrow> contract1\<lparr>status := Cancelled, c_completed_at := completed_at cs\<rparr>
                       | None \<Rightarrow>
                          (case completedSpan of
                             Some cs \<Rightarrow> contract1\<lparr>status := Completed, c_completed_at := completed_at cs\<rparr>
                           | None \<Rightarrow> contract1))
                in (Inr (), saveContract contract2 db))))"

section \<open>Appending to the ledger (ledger.ts)\<close>

text \<open>
  Steps 1 and 2 of \<open>appendToLedger\<close>: the span as it is handed to \<open>appendSpan\<close>.
  \<open>signedAt\<close> is the reading of the clock for the confirmation.
\<close>

definition hashAndSign :: "platform \<Rightarrow> string \<Rightarrow> Span \<Rightarrow> database \<Rightarrow> exn + Span" where
  "hashAndSign P signedAt span db =
     (let span1 = (if hash (this span) = [] then span\<lparr>this := (this span)\<lparr>hash := calculateSpanHashT P span\<rparr>\<rparr> else span)
      in case getIdentity db of
           None \<Rightarrow> Inr span1
         | Some idn \<Rightarrow>
             if confirmed_by span1 = None then
               (case signSpan P span1 (private_key_handle idn) of
                  (Inl e, span2) \<Rightarrow> Inl e
                | (Inr sig, span2) \<Rightarrow>
                    Inr (span2\<lparr>confirmed_by := Some \<lparr>signature = sig, domain = ''minicontratos.local'',
                                                     timestamp = signedAt, signer_id = user_id idn\<rparr>\<rparr>))
             else Inr span1)"

definition appendToLedger :: "platform \<Rightarrow> string \<Rightarrow> string \<Rightarrow> Span \<Rightarrow> database \<Rightarrow> (exn + unit) \<times> database" where
  "appendToLedger P signedAt now span db =
     (case hashAndSign P signedAt span db of
        Inl e \<Rightarrow> (Inl e, db)
      | Inr span2 \<Rightarrow>
         (case appendSpan span2 db of
            (Inl e, db1) \<Rightarrow> (Inl e, db1)
          | (Inr u, db1) \<Rightarrow>
              if entity span2 = ''minicontrato''
              then updateContractFromSpans P now (trace_id span2) db1
              else (Inr (), db1)))"

section \<open>The integrity verifier (ledger.ts)\<close>

record VerifyError =
  span_id :: string
  error :: string

record VerifyReport =
  valid :: bool
  total :: nat
  errors :: "VerifyError list"

text \<open>
  The body of the inner loop of \<open>verifyLedger\<close>: what one span adds to \<open>errors\<close>, in the
  order of the three checks. \<open>verifySpan\<close> has no path that throws (\<open>verify\<close> catches),
  so the \<open>catch\<close> around it adds nothing.
\<close>

definition checkSpan :: "platform \<Rightarrow> database \<Rightarrow> Span list \<Rightarrow> Span \<Rightarrow> VerifyError list" where
  "checkSpan P db spanList span =
     (let calculatedHash = calculateSpanHashT P span;
          hashErrors =
            (if hash (this span) \<noteq> calculatedHash
             then [\<lparr>span_id = id' span,
                    error = ''Hash mismatch: expected '' @ hash (this span) @ '', got '' @ calculatedHash\<rparr>]
             else []);
          signatureErrors =
            (case confirmed_by span of
               None \<Rightarrow> []
             | Some c \<Rightarrow>
                 if signature c = [] then []
                 else (case getIdentity db of
                         None \<Rightarrow> []
                       | Some idn \<Rightarrow>
                           if verifySpan P span (private_key_handle idn) then []
                           else [\<lparr>span_id = id' span, error = ''Invalid signature''\<rparr>]));
          parentErrors =
            (case present (parent_id span) of
               None \<Rightarrow> []
             | Some p \<Rightarrow>
                 if list_ex (\<lambda>s. id' s = p) spanList then []
                 else [\<lparr>span_id = id' span, error = ''Parent span '' @ p @ '' not found''\<rparr>])
      in hashErrors @ signatureErrors @ parentErrors)"

fun verifySpans :: "platform \<Rightarrow> database \<Rightarrow> Span list \<Rightarrow> VerifyError list \<Rightarrow> Span list \<Rightarrow> VerifyError list" where
  "verifySpans P db spanList errs [] = errs"
| "verifySpans P db spanList errs (span # rest) =
     verifySpans P db spanList (errs @ checkSpan P db spanList span) rest"

fun verifyContracts :: "platform \<Rightarrow> database \<Rightarrow> VerifyError list \<times> nat \<Rightarrow> Contract list \<Rightarrow> VerifyError list \<times> nat" where
  "verifyContracts P db acc [] = acc"
| "verifyContracts P db acc (contract # rest) =
     (let spanList = getSpansByTrace P (c_id contract) db
      in verifyContracts P db (verifySpans P db spanList (fst acc) spanList, snd acc + length spanList) rest)"

definition verifyLedger :: "platform \<Rightarrow> database \<Rightarrow> VerifyReport" where
  "verifyLedger P db =
     (let acc = verifyContracts P db ([], 0) (getAllContracts P db)
      in \<lparr>valid = (length (fst acc) = 0), total = snd acc, errors = fst acc\<rparr>)"

section \<open>Extraction of candidate spans (llm.ts)\<close>

text \<open>
  The expression \<open>/```json\s*([\s\S]*?)\s*```/g\<close> under \<open>matchAll\<close>: a match starts at the
  leftmost tag, the first \<open>\s*\<close> takes all the white space after it, and the lazy group
  stops as soon as white space and a fence follow, that is at the first fence, without
  the white space before it. The search goes on after that fence. A tag with no fence
  after it gives no match, and then no later tag has one either.
\<close>

definition js_space :: "char \<Rightarrow> bool" where
  "js_space c = ((of_char c :: nat) \<in> {9, 10, 11, 12, 13, 32, 160})"

fun indexOf :: "string \<Rightarrow> string \<Rightarrow> nat option" where
  "indexOf pat [] = (if pat = [] then Some 0 else None)"
| "indexOf pat (c # cs) = (if startsWith (c # cs) pat then Some 0 else map_option Suc (indexOf pat cs))"

definition trimEnd :: "string \<Rightarrow> string" where
  "trimEnd s = rev (dropWhile js_space (rev s))"

function json_blocks :: "string \<Rightarrow> string list" where
  "json_blocks str =
     (case indexOf ''```json'' str of
        None \<Rightarrow> []
      | Some i \<Rightarrow>
         (let rest = dropWhile js_space (drop (i + 7) str) in
          case indexOf ''```'' rest of
            None \<Rightarrow> []
          | Some j \<Rightarrow> trimEnd (take j rest) # json_blocks (drop (j + 3) rest)))"
  by pat_completeness auto
termination
proof (relation "measure length")
  show "wf (measure length)" by simp
next
  fix str :: string and i rest j
  assume i: "indexOf ''```json'' str = Some i"
    and rest: "rest = dropWhile js_space (drop (i + 7) str)"
  have "str \<noteq> []" using i by (cases str) auto
  moreover have "length rest \<le> length str"
    unfolding rest by (rule order_trans [OF length_dropWhile_le]) simp
  ultimately show "(drop (j + 3) rest, str) \<in> measure length"
    by (cases str) auto
qed

declare json_blocks.simps [simp del]

text \<open>The loop over the matches, with the array \<open>allSpans\<close> it pushes to.\<close>

fun parseBlocks :: "platform \<Rightarrow> json list \<Rightarrow> string list \<Rightarrow> json list" where
  "parseBlocks P allSpans [] = allSpans"
| "parseBlocks P allSpans (jsonText # rest) =
     (case JSON_parse P jsonText of
        None \<Rightarrow> parseBlocks P allSpans rest
      | Some (JArray xs) \<Rightarrow> parseBlocks P (allSpans @ xs) rest
      | Some (JObject kvs) \<Rightarrow> parseBlocks P (allSpans @ [JObject kvs]) rest
      | Some parsed \<Rightarrow> parseBlocks P allSpans rest)"

definition extractSpansFromResponse :: "platform \<Rightarrow> string \<Rightarrow> json list" where
  "extractSpansFromResponse P response =
     (let matches = json_blocks response in
      if length matches = 0 then
        (case JSON_parse P response of
           None \<Rightarrow> []
         | Some (JArray xs) \<Rightarrow> xs
         | Some (JObject kvs) \<Rightarrow> [JObject kvs]
         | Some parsed \<Rightarrow> parseBlocks P [] matches)
      else parseBlocks P [] matches)"

section \<open>Credential encryption (crypto.ts)\<close>

text \<open>
  The random source is a stream of bytes; \<open>crypto.getRandomValues\<close> on a new array of
  \<open>n\<close> bytes takes the next \<open>n\<close> of them.
\<close>

type_synonym random = "nat \<Rightarrow> byte"

definition getRandomValues :: "nat \<Rightarrow> random \<Rightarrow> byte list \<times> random" where
  "getRandomValues n r = (map r [0 ..< n], (\<lambda>i. r (i + n)))"

definition bytesToBase64 :: "platform \<Rightarrow> byte list \<Rightarrow> string" where
  "bytesToBase64 P bytes = btoa P (map (\<lambda>b. char_of (unat b)) bytes)"

definition base64ToBytes :: "platform \<Rightarrow> string \<Rightarrow> exn + byte list" where
  "base64ToBytes P base64 =
     (case atob P base64 of
        None \<Rightarrow> Inl InvalidCharacterError
      | Some binString \<Rightarrow> Inr (map (\<lambda>c. of_nat (of_char c)) binString))"

definition encryptApiKey :: "platform \<Rightarrow> string \<Rightarrow> string \<Rightarrow> random \<Rightarrow> string \<times> random" where
  "encryptApiKey P apiKey userId r =
     (let (salt, r1) = getRandomValues 16 r;
          keyMaterial = text_encode P userId;
          encryptionKey = pbkdf2 P keyMaterial salt 100000 ''SHA-256'' 256;
          (iv, r2) = getRandomValues 12 r1;
          encrypted = aes_gcm_encrypt P encryptionKey iv (text_encode P apiKey);
          combined = salt @ iv @ encrypted
      in (bytesToBase64 P combined, r2))"

definition decryptApiKey :: "platform \<Rightarrow> string \<Rightarrow> string \<Rightarrow> exn + string" where
  "decryptApiKey P encrypted userId =
     (case base64ToBytes P encrypted of
        Inl e \<Rightarrow> Inl e
      | Inr data \<Rightarrow>
         (let salt = take 16 data;
              iv = take 12 (drop 16 data);
              ciphertext = drop 28 data;
              keyMaterial = text_encode P userId;
              decryptionKey = pbkdf2 P keyMaterial salt 100000 ''SHA-256'' 256
          in case aes_gcm_decrypt P decryptionKey iv ciphertext of
               None \<Rightarrow> Inl OperationError
             | Some decrypted \<Rightarrow> Inr (text_decode P decrypted)))"

section \<open>Notions used in the statements\<close>


text \<open>
  Which spans a filter keeps, read off \<open>querySpans\<close>: the first given of \<open>trace_id\<close>,
  \<open>type\<close>, \<open>entity\<close> selects (the later ones are not looked at), and \<open>user_id\<close>,
  \<open>from\<close>, \<open>to\<close> each narrow when given. \<open>newest_first\<close> is the comparator of the sort.
\<close>

definition selected :: "SpanFilter \<Rightarrow> Span \<Rightarrow> bool" where
  "selected f s =
     (case present (f_trace_id f) of
        Some t \<Rightarrow> trace_id s = t
      | None \<Rightarrow>
         (case present (f_type f) of
            Some ty \<Rightarrow> type s = ty
          | None \<Rightarrow>
             (case present (f_entity f) of
                Some en \<Rightarrow> entity s = en
              | None \<Rightarrow> True)))"

definition narrowed :: "SpanFilter \<Rightarrow> Span \<Rightarrow> bool" where
  "narrowed f s =
     ((case present (f_user_id f) of Some u \<Rightarrow> map_option signer_id (confirmed_by s) = Some u | None \<Rightarrow> True)
      \<and> (case present (f_from f) of Some fr \<Rightarrow> fr \<le> started_at s | None \<Rightarrow> True)
      \<and> (case present (f_to f) of Some to \<Rightarrow> started_at s \<le> to | None \<Rightarrow> True))"

definition newest_first :: "platform \<Rightarrow> Span \<Rightarrow> Span \<Rightarrow> int" where
  "newest_first P = (\<lambda>a b. localeCompare P (started_at b) (started_at a))"

text \<open>
  What one text gives when it is parsed: the elements of an array, the object itself,
  and nothing when the text does not parse or is any other value.
\<close>

definition block_objects :: "platform \<Rightarrow> string \<Rightarrow> json list" where
  "block_objects P jsonText =
     (case JSON_parse P jsonText of
        Some (JArray xs) \<Rightarrow> xs
      | Some (JObject kvs) \<Rightarrow> [JObject kvs]
      | _ \<Rightarrow> [])"

text \<open>
  A reply read as prose, fenced blocks and a tail: \<open>fenced_reply [(p1, i1), (p2, i2)] t\<close>
  is the text \<open>p1\<close>, the tag, \<open>i1\<close>, a fence, \<open>p2\<close>, the tag, \<open>i2\<close>, a fence, \<open>t\<close>. It is
  the reading of the scan (\<open>well_fenced\<close>) when the tag occurs in no prose (\<open>no_tag\<close>),
  no inner text holds a fence or ends in a backquote, so that the fence after it is the
  first one after the tag (\<open>no_fence\<close>), and the tail has no block: it has no tag, or no
  fence after its first tag (\<open>no_block\<close>). \<open>trim\<close> takes the white space off both ends.
  These notions are stated with \<open>sublist\<close> and \<open>prefix\<close> of the library, not with the
  search of the source.
\<close>

fun fenced_reply :: "(string \<times> string) list \<Rightarrow> string \<Rightarrow> string" where
  "fenced_reply [] tail = tail"
| "fenced_reply (b # blocks) tail = fst b @ ''```json'' @ snd b @ ''```'' @ fenced_reply blocks tail"

definition no_tag :: "string \<Rightarrow> bool" where
  "no_tag s = (\<not> sublist ''```json'' s)"

definition no_fence :: "string \<Rightarrow> bool" where
  "no_fence s = (\<not> sublist ''```'' s \<and> (s = [] \<or> last s \<noteq> CHR ''`''))"

fun unclosed :: "string \<Rightarrow> string \<Rightarrow> string \<Rightarrow> bool" where
  "unclosed opening closing [] = True"
| "unclosed opening closing (c # cs) =
     (if prefix opening (c # cs) then \<not> sublist closing (drop (length opening) (c # cs))
      else unclosed opening closing cs)"

definition no_block :: "string \<Rightarrow> bool" where
  "no_block s = unclosed ''```json'' ''```'' s"

definition well_fenced :: "(string \<times> string) list \<Rightarrow> string \<Rightarrow> bool" where
  "well_fenced blocks tail = (list_all (\<lambda>b. no_tag (fst b) \<and> no_fence (snd b)) blocks \<and> no_block tail)"

definition trim :: "string \<Rightarrow> string" where
  "trim s = trimEnd (dropWhile js_space s)"

section \<open>Concrete data\<close>

text \<open>
  A small platform on which the definitions can be run: the hash of a message is its
  length, a signature is the key followed by the message, the cipher reverses, base64
  is the identity, the parser knows one text, and strings collate by code units. It
  serves the closed instances below; no general statement depends on it.
\<close>

definition demo :: platform where
  "demo = \<lparr>blake3 = (\<lambda>bytes. [of_nat (length bytes)]),
            text_encode = map (\<lambda>c. of_nat (of_char c)),
            text_decode = map (\<lambda>b. char_of (unat b)),
            ed25519_sign = (\<lambda>k m. of_nat k # m),
            ed25519_verify = (\<lambda>k sig m. sig = of_nat k # m),
            pbkdf2 = (\<lambda>pw salt n h len. length pw + n),
            aes_gcm_encrypt = (\<lambda>k iv m. rev m),
            aes_gcm_decrypt = (\<lambda>k iv c. Some (rev c)),
            btoa = (\<lambda>s. s),
            atob = Some,
            JSON_parse = (\<lambda>s. if s = ''[{},{}]'' then Some (JArray [JObject [], JObject []]) else None),
            localeCompare = (\<lambda>a b. if a < b then - 1 else if a = b then 0 else 1)\<rparr>"




text \<open>
  The trace \<open>t1\<close>: its creation span as it is built (\<open>created1\<close>, no hash yet) and with a
  stored hash (\<open>created1h\<close>), its cancellation span, a creation span whose entity is not
  \<open>minicontrato\<close>, and the contract record that the first projection of the trace writes
  when both spans are stored.
\<close>

definition body0 :: SpanBody where
  "body0 = \<lparr>action = ''create_contract'', input = JObject [(''title'', JString ''Rent'')],
            output' = JUndefined, rules = JUndefined, metadata = JUndefined\<rparr>"

definition created1 :: Span where
  "created1 = \<lparr>id' = ''s1'', trace_id = ''t1'', parent_id = None, type = ''contract.created'',
     entity = ''minicontrato'', body = body0, started_at = ''2025-01-01T00:00:00Z'',
     completed_at = None, duration_ms = None,
     this = \<lparr>hash = [], version = ''1.0.0''\<rparr>, confirmed_by = None\<rparr>"

definition created1h :: Span where
  "created1h = created1\<lparr>this := \<lparr>hash = ''blake3:aa'', version = ''1.0.0''\<rparr>\<rparr>"

definition created_other :: Span where
  "created_other = created1h\<lparr>entity := ''payment''\<rparr>"

definition cancelled2 :: Span where
  "cancelled2 = \<lparr>id' = ''s2'', trace_id = ''t1'', parent_id = None, type = ''contract.cancelled'',
     entity = ''minicontrato'',
     body = \<lparr>action = ''cancel_contract'', input = JUndefined, output' = JUndefined,
              rules = JUndefined, metadata = JUndefined\<rparr>,
     started_at = ''2025-01-02T00:00:00Z'',
     completed_at = Some ''2025-01-02T00:00:05Z'', duration_ms = None,
     this = \<lparr>hash = ''blake3:bb'', version = ''1.0.0''\<rparr>, confirmed_by = None\<rparr>"

definition contract_first :: Contract where
  "contract_first = \<lparr>c_id = ''t1'', title = JString ''Rent'', description = JUndefined, parties = [],
      status = Active, created_at = ''2025-01-01T00:00:00Z'', updated_at = ''2025-02-01T00:00:00Z'',
      c_completed_at = None, c_spans = [''s2'', ''s1''], c_metadata = JUndefined\<rparr>"

text \<open>Databases without an identity: empty, with the creation span, with both spans.\<close>

definition empty_db :: database where
  "empty_db = \<lparr>spans = [], contracts = [], identity = None\<rparr>"

definition db_one :: database where
  "db_one = \<lparr>spans = [created1h], contracts = [], identity = None\<rparr>"

definition db_two :: database where
  "db_two = \<lparr>spans = [created1h, cancelled2], contracts = [], identity = None\<rparr>"

text \<open>A filter that gives a trace and a type.\<close>

definition trace_and_type :: SpanFilter where
  "trace_and_type = no_filter\<lparr>f_trace_id := Some ''t1'', f_type := Some ''contract.created''\<rparr>"

text \<open>
  A local identity with the key pair 7 and its empty ledger. \<open>signed1\<close> is the creation
  span with a confirmation by that identity, the hash that \<open>calculateSpanHash\<close> gives for
  it on the small platform, and the signature that \<open>sign\<close> gives for that hash with the
  private key 7. \<open>created1_stored\<close> is \<open>created1\<close> as \<open>appendToLedger\<close> stores it for the
  identity: with the hash of the unconfirmed span and the confirmation added after.
\<close>

definition ana :: Identity where
  "ana = \<lparr>user_id = ''ana'', public_key = 7, private_key_handle = PrivateKey 7,
           i_created_at = ''2025-01-01T00:00:00Z''\<rparr>"

definition ana_db :: database where
  "ana_db = \<lparr>spans = [], contracts = [], identity = Some ana\<rparr>"


definition signed1 :: Span where
  "signed1 = created1\<lparr>this := \<lparr>hash = ''blake3:38'', version = ''1.0.0''\<rparr>,
     confirmed_by := Some \<lparr>signature = ''ed25519:07626c616b65333a3338'', domain = ''minicontratos.local'',
        timestamp = ''2025-01-01T00:00:01Z'', signer_id = ''ana''\<rparr>\<rparr>"

definition created1_stored :: Span where
  "created1_stored = created1\<lparr>this := \<lparr>hash = ''blake3:d3'', version = ''1.0.0''\<rparr>,
     confirmed_by := Some \<lparr>signature = ''ed25519:07626c616b65333a6433'', domain = ''minicontratos.local'',
        timestamp = ''2025-01-01T00:00:01Z'', signer_id = ''ana''\<rparr>\<rparr>"

text \<open>A reply with two fenced blocks: an array of two objects, and a text that is not JSON.\<close>

definition reply_two_blocks :: string where
  "reply_two_blocks = ''Here: ```json'' @ [CHR 0x0A] @ ''[{},{}]'' @ [CHR 0x0A] @ ''``` and ```json''
     @ [CHR 0x0A] @ ''{bad'' @ [CHR 0x0A] @ ''```''"

text \<open>A random source: the byte at position \<open>i\<close> is \<open>i\<close>.\<close>

definition counting :: random where
  "counting = (\<lambda>i. of_nat i)"

section \<open>Properties\<close>

subsection \<open>Objects\<close>






lemma obj_set_at:
  "k \<notin> set (map fst pre) \<Longrightarrow> obj_set k v (pre @ (k, w) # post) = pre @ (k, v) # post"
  by (induction pre) auto

lemma obj_set_append_absent:
  "k \<notin> set (map fst pre) \<Longrightarrow> obj_set k v (pre @ post) = pre @ obj_set k v post"
  by (induction pre) auto


subsection \<open>The order of the properties\<close>

text \<open>
  An object none of whose keys is an array index is enumerated in the order of creation.
  Setting a key that is not an array index, and exchanging two neighbouring properties
  whose keys are not array indices, commute with the enumeration.
\<close>

lemma own_properties_plain:
  "list_all (\<lambda>kv. \<not> is_array_index (fst kv)) kvs \<Longrightarrow> own_properties kvs = kvs"
proof -
  assume a: "list_all (\<lambda>kv. \<not> is_array_index (fst kv)) kvs"
  then have "filter (\<lambda>kv. is_array_index (fst kv)) kvs = []"
    by (induction kvs) auto
  moreover from a have "filter (\<lambda>kv. \<not> is_array_index (fst kv)) kvs = kvs"
    by (induction kvs) auto
  ultimately show ?thesis
    by (simp add: own_properties_def)
qed








subsection \<open>The copy that is hashed\<close>











subsection \<open>The text that is hashed\<close>















subsection \<open>The hash of a typed span\<close>

lemma Span_obj_front: "Span_obj s = JObject (span_front s @ (''this'', SpanHash_obj (this s)) # opt_member ''confirmed_by'' SpanConfirmation_obj (confirmed_by s))"
  by (simp add: Span_obj_def span_front_def)

lemma front_keys: "''this'' \<notin> set (map fst (span_front s))" "''confirmed_by'' \<notin> set (map fst (span_front s))"
  by (auto simp: span_front_def opt_member_def split: option.splits)

lemma front_lookup: "map_of (span_front s) ''this'' = None" "map_of (span_front s) ''confirmed_by'' = None"
  using front_keys [of s] by (simp_all add: map_of_eq_None_iff)

lemma front_indep [simp]: "span_front (s\<lparr>this := t\<rparr>) = span_front s" "span_front (s\<lparr>confirmed_by := cb\<rparr>) = span_front s"
  by (simp_all add: span_front_def)

lemma Span_obj_plain:
  "own_properties (span_front s @ (''this'', t) # opt_member ''confirmed_by'' f (confirmed_by s)) =
   span_front s @ (''this'', t) # opt_member ''confirmed_by'' f (confirmed_by s)"
  by (rule own_properties_plain)
     (simp add: span_front_def opt_member_def is_digit_def split: option.splits)

lemma spread_SpanHash_obj:
  "spread (SpanHash_obj h) = [(''hash'', JString (hash h)), (''version'', JString (version h))]"
  by (simp add: SpanHash_obj_def own_properties_def is_digit_def)

lemma spread_SpanConfirmation_obj:
  "spread (SpanConfirmation_obj c) = [(''signature'', JString (signature c)), (''domain'', JString (domain c)),
     (''timestamp'', JString (timestamp c)), (''signer_id'', JString (signer_id c))]"
  by (simp add: SpanConfirmation_obj_def own_properties_def is_digit_def)

lemma truthy_SpanConfirmation_obj: "truthy (SpanConfirmation_obj c)"
  by (simp add: SpanConfirmation_obj_def)

lemma own_properties_confirmation:
  "own_properties [(''signature'', a), (''domain'', b), (''timestamp'', c), (''signer_id'', d)] =
     [(''signature'', a), (''domain'', b), (''timestamp'', c), (''signer_id'', d)]"
  by (simp add: own_properties_def is_digit_def)

lemma spanForHashing_typed:
  "spanForHashing (Span_obj s) = JObject (span_front s @
      [(''this'', JObject [(''hash'', JString []), (''version'', JString (version (this s)))]),
       (''confirmed_by'', case confirmed_by s of None \<Rightarrow> JUndefined
          | Some c \<Rightarrow> JObject [(''domain'', JString (domain c)), (''timestamp'', JString (timestamp c)), (''signer_id'', JString (signer_id c))])])"
proof -
  note fk = front_keys [of s] front_lookup [of s]
  have own: "spread (Span_obj s) = span_front s @ (''this'', SpanHash_obj (this s)) # opt_member ''confirmed_by'' SpanConfirmation_obj (confirmed_by s)"
    by (simp add: Span_obj_front Span_obj_plain)
  show ?thesis
  proof (cases "confirmed_by s")
    case None
    then show ?thesis
      using fk own
      by (simp add: Span_obj_front spanForHashing_def Let_def map_add_def obj_set_at obj_set_append_absent
          opt_member_def spread_SpanHash_obj)
  next
    case (Some c)
    then show ?thesis
      using fk own
      by (simp add: Span_obj_front spanForHashing_def Let_def map_add_def obj_set_at obj_set_append_absent
          opt_member_def spread_SpanHash_obj spread_SpanConfirmation_obj own_properties_confirmation obj_rest_def
          truthy_SpanConfirmation_obj)
  qed
qed


lemma hash_ignores_stored_hash:
  "calculateSpanHashT P (s\<lparr>this := (this s)\<lparr>hash := h\<rparr>\<rparr>) = calculateSpanHashT P s"
  by (simp add: calculateSpanHashT_def calculateSpanHash_def spanForHashing_typed)



















subsection \<open>Runs on the concrete data\<close>

lemmas query_defs = getSpansByTrace_def querySpans_def no_filter_def present_def
  index_getAll_def by_trace_def by_type_def by_entity_def Array_sort_def slice0_def

lemmas store_defs = appendSpan_def idb_add_def idb_put_def idb_get_def saveContract_def
  getContract_def getAllContracts_def getIdentity_def

lemmas projector_defs = updateContractFromSpans_def extractContractTitle_def
  extractContractDescription_def

lemmas data_defs = demo_def created1_def created1h_def cancelled2_def body0_def empty_db_def
  db_two_def contract_first_def ana_def ana_db_def signed1_def

lemmas hash_defs = calculateSpanHashT_def calculateSpanHash_def spanForHashing_typed
  calculateHash_def span_front_def opt_member_def SpanBody_obj_def JSON_stringify_def
  object_member_def QuoteJSONString_def quote_char_def bytesToHex_def byteToHex_def hex_digit_def
  own_properties_def is_digit_def

lemmas verify_defs = verifySpan_def verify_def subtle_verify_def hexToBytes_def parseInt16_def
  strip_sign_def strip_0x_def hex_value_def toUint8_def startsWith_def StrWhiteSpaceChar_def

text \<open>
  C2, at a trace whose cancellation span was appended before its creation span. The
  first projection of the trace takes the branch that creates the record, which sets
  the status \<open>active\<close> without looking for a cancellation or completion span; the branch
  that updates a record does look. The record says \<open>active\<close> for a trace that holds a
  \<open>contract.cancelled\<close> span.
\<close>

theorem first_projection_ignores_cancelled:
  "appendToLedger demo ''2025-02-01T00:00:00Z'' ''2025-02-01T00:00:00Z'' created1h
     (snd (appendToLedger demo ''2025-01-15T00:00:00Z'' ''2025-01-15T00:00:00Z'' cancelled2 empty_db))
     = (Inr (), db_two\<lparr>contracts := [contract_first]\<rparr>)
   \<and> getSpansByTrace demo ''t1'' db_two = [cancelled2, created1h]
   \<and> type cancelled2 = ''contract.cancelled''
   \<and> status contract_first = Active"
  by (simp add: appendToLedger_def hashAndSign_def query_defs store_defs projector_defs data_defs)

text \<open>
  C8, at the same trace. Two projections of the unchanged spans: the first creates the
  record with the status \<open>active\<close> and no \<open>completed_at\<close>, the second finds the record
  and sets \<open>cancelled\<close> and the \<open>completed_at\<close> of the cancellation span. The two
  records differ in more than \<open>updated_at\<close>.
\<close>

theorem projection_twice_differs:
  "updateContractFromSpans demo ''2025-02-01T00:00:00Z'' ''t1'' db_two
     = (Inr (), db_two\<lparr>contracts := [contract_first]\<rparr>)
   \<and> updateContractFromSpans demo ''2025-02-01T00:00:00Z'' ''t1'' (db_two\<lparr>contracts := [contract_first]\<rparr>)
     = (Inr (), db_two\<lparr>contracts :=
          [contract_first\<lparr>status := Cancelled, c_completed_at := Some ''2025-01-02T00:00:05Z''\<rparr>]\<rparr>)
   \<and> contract_first \<noteq> contract_first\<lparr>status := Cancelled, c_completed_at := Some ''2025-01-02T00:00:05Z''\<rparr>"
  by (simp add: query_defs store_defs projector_defs data_defs)

subsection \<open>Signatures in the verifier\<close>

lemma verify_private_key: "verify P data sig (PrivateKey k) = False"
  by (simp add: verify_def subtle_verify_def)

lemma verifySpan_private_key: "verifySpan P span (PrivateKey k) = False"
  by (simp add: verifySpan_def verify_private_key split: option.splits)

text \<open>
  When the error \<open>Invalid signature\<close> is recorded for a span: the span carries a
  signature, a local identity exists, and \<open>verifySpan\<close> with the key handle of that
  identity answers \<open>false\<close>. The signer named in the span plays no part, and without a
  local identity no signature is checked.
\<close>

lemma invalid_signature_recorded_iff:
  "\<lparr>span_id = id' span, error = ''Invalid signature''\<rparr> \<in> set (checkSpan P db spanList span) \<longleftrightarrow>
     (\<exists>c idn. confirmed_by span = Some c \<and> signature c \<noteq> [] \<and> getIdentity db = Some idn
        \<and> \<not> verifySpan P span (private_key_handle idn))"
proof -
  let ?e = "\<lparr>span_id = id' span, error = ''Invalid signature''\<rparr>"
  have h: "?e \<noteq> \<lparr>span_id = i, error = ''Hash mismatch: expected '' @ x\<rparr>" for i x
    by simp
  have p: "?e \<noteq> \<lparr>span_id = i, error = ''Parent span '' @ x\<rparr>" for i x
    by simp
  have hs: "?e \<notin> set (if hash (this span) \<noteq> calculateSpanHashT P span
             then [\<lparr>span_id = id' span,
                    error = ''Hash mismatch: expected '' @ hash (this span) @ '', got '' @ calculateSpanHashT P span\<rparr>]
             else [])"
    using h by (simp del: append.simps)
  have ps: "?e \<notin> set (case present (parent_id span) of
               None \<Rightarrow> []
             | Some p \<Rightarrow>
                 if list_ex (\<lambda>s. id' s = p) spanList then []
                 else [\<lparr>span_id = id' span, error = ''Parent span '' @ p @ '' not found''\<rparr>])"
    using p by (simp del: append.simps split: option.splits)
  have ss: "?e \<in> set (case confirmed_by span of
               None \<Rightarrow> []
             | Some c \<Rightarrow>
                 if signature c = [] then []
                 else (case getIdentity db of
                         None \<Rightarrow> []
                       | Some idn \<Rightarrow>
                           if verifySpan P span (private_key_handle idn) then []
                           else [\<lparr>span_id = id' span, error = ''Invalid signature''\<rparr>])) \<longleftrightarrow>
     (\<exists>c idn. confirmed_by span = Some c \<and> signature c \<noteq> [] \<and> getIdentity db = Some idn
        \<and> \<not> verifySpan P span (private_key_handle idn))"
    by (cases "confirmed_by span"; cases "getIdentity db"; simp)
  show ?thesis
    unfolding checkSpan_def Let_def set_append Un_iff
    using hs ps ss by blast
qed

text \<open>
  C3. \<open>verifyLedger\<close> hands \<open>verifySpan\<close> the private key handle of the local identity,
  whatever the signer of the span; Web Crypto refuses to verify with a private key,
  \<open>verify\<close> turns the refusal into \<open>false\<close>, and the span gets the error
  \<open>Invalid signature\<close>. So with a local identity every span that carries a signature
  is reported, the validly signed ones too.
\<close>

theorem signed_span_always_reported:
  assumes "getIdentity db = Some idn"
    and "private_key_handle idn = PrivateKey k"
    and "confirmed_by span = Some c"
    and "signature c \<noteq> []"
  shows "verifySpan P span (private_key_handle idn) = False
    \<and> \<lparr>span_id = id' span, error = ''Invalid signature''\<rparr> \<in> set (checkSpan P db spanList span)"
  using assms by (simp add: checkSpan_def Let_def verifySpan_private_key)

text \<open>
  The span \<open>signed1\<close> has the hash that is recomputed for it and a signature that
  verifies under the public key of the identity; appended to the ledger of that
  identity, it is the one span of the report, with the error \<open>Invalid signature\<close>.
\<close>

theorem signed_span_always_reported_witness:
  "getIdentity ana_db = Some ana
   \<and> private_key_handle ana = PrivateKey 7
   \<and> confirmed_by signed1 = Some \<lparr>signature = ''ed25519:07626c616b65333a3338'', domain = ''minicontratos.local'',
        timestamp = ''2025-01-01T00:00:01Z'', signer_id = ''ana''\<rparr>
   \<and> hash (this signed1) = calculateSpanHashT demo signed1
   \<and> sign demo (hash (this signed1)) (PrivateKey 7) = Inr ''ed25519:07626c616b65333a3338''
   \<and> verifySpan demo signed1 (PublicKey 7) = True
   \<and> verifySpan demo signed1 (private_key_handle ana) = False
   \<and> \<lparr>span_id = id' signed1, error = ''Invalid signature''\<rparr> \<in> set (checkSpan demo ana_db [signed1] signed1)
   \<and> verifyLedger demo (snd (appendToLedger demo ''2025-01-01T00:00:02Z'' ''2025-01-01T00:00:02Z'' signed1 ana_db))
       = \<lparr>valid = False, total = 1, errors = [\<lparr>span_id = ''s1'', error = ''Invalid signature''\<rparr>]\<rparr>"
proof -
  have fields: "id' signed1 = ''s1''" "trace_id signed1 = ''t1''" "type signed1 = ''contract.created''"
    "entity signed1 = ''minicontrato''" "started_at signed1 = ''2025-01-01T00:00:00Z''"
    "parent_id signed1 = None" "body signed1 = body0" "hash (this signed1) = ''blake3:38''"
    by (simp_all add: signed1_def created1_def)
  have c: "confirmed_by signed1 = Some \<lparr>signature = ''ed25519:07626c616b65333a3338'', domain = ''minicontratos.local'',
        timestamp = ''2025-01-01T00:00:01Z'', signer_id = ''ana''\<rparr>"
    by (simp add: signed1_def)
  have hash1: "calculateSpanHashT demo signed1 = ''blake3:38''"
    by (simp add: hash_defs data_defs)
  have pub: "verifySpan demo signed1 (PublicKey 7) = True"
    by (simp add: verifySpan_def c fields hash1) (simp add: verify_defs demo_def)
  have sig: "sign demo (hash (this signed1)) (PrivateKey 7) = Inr ''ed25519:07626c616b65333a3338''"
    by (simp add: fields) (simp add: sign_def subtle_sign_def demo_def bytesToHex_def byteToHex_def hex_digit_def)
  have a: "getIdentity ana_db = Some ana" "private_key_handle ana = PrivateKey 7"
    by (simp_all add: getIdentity_def ana_db_def ana_def)
  have app: "snd (appendToLedger demo ''2025-01-01T00:00:02Z'' ''2025-01-01T00:00:02Z'' signed1 ana_db)
      = \<lparr>spans = [signed1],
         contracts = [\<lparr>c_id = ''t1'', title = JString ''Rent'', description = JUndefined, parties = [],
            status = Active, created_at = ''2025-01-01T00:00:00Z'', updated_at = ''2025-01-01T00:00:02Z'',
            c_completed_at = None, c_spans = [''s1''], c_metadata = JUndefined\<rparr>],
         identity = Some ana\<rparr>"
    by (simp add: appendToLedger_def hashAndSign_def query_defs store_defs projector_defs fields c
        ana_db_def body0_def)
  have led: "verifyLedger demo (snd (appendToLedger demo ''2025-01-01T00:00:02Z'' ''2025-01-01T00:00:02Z'' signed1 ana_db))
       = \<lparr>valid = False, total = 1, errors = [\<lparr>span_id = ''s1'', error = ''Invalid signature''\<rparr>]\<rparr>"
    unfolding app
    by (simp add: verifyLedger_def query_defs store_defs fields c checkSpan_def hash1 a
        verifySpan_private_key)
  from signed_span_always_reported [OF a c, of demo "[signed1]"] a c fields hash1 sig pub led
  show ?thesis by simp
qed

subsection \<open>Sorting\<close>

lemma set_sort_insert: "set (sort_insert cmp x ys) = insert x (set ys)"
  by (induction ys) auto

lemma set_Array_sort: "set (Array_sort cmp xs) = set xs"
  by (induction xs) (simp_all add: Array_sort_def set_sort_insert)

lemma length_sort_insert: "length (sort_insert cmp x ys) = Suc (length ys)"
  by (induction ys) auto

lemma length_Array_sort: "length (Array_sort cmp xs) = length xs"
  by (induction xs) (simp_all add: Array_sort_def length_sort_insert)

lemma sorted_sort_insert:
  assumes trans: "\<And>a b c. cmp a b \<le> 0 \<Longrightarrow> cmp b c \<le> 0 \<Longrightarrow> cmp a c \<le> 0"
    and total: "\<And>a b. cmp a b \<le> 0 \<or> cmp b a \<le> 0"
    and sorted: "sorted_wrt (\<lambda>a b. cmp a b \<le> 0) ys"
  shows "sorted_wrt (\<lambda>a b. cmp a b \<le> 0) (sort_insert cmp x ys)"
  using sorted
proof (induction ys)
  case Nil
  then show ?case by simp
next
  case (Cons y ys)
  show ?case
  proof (cases "cmp x y \<le> 0")
    case True
    then have "\<forall>z\<in>set ys. cmp x z \<le> 0"
      using Cons.prems trans by auto
    with True Cons.prems show ?thesis by simp
  next
    case False
    then have "cmp y x \<le> 0" using total [of x y] by simp
    with False Cons show ?thesis
      by (auto simp: set_sort_insert)
  qed
qed

lemma sorted_Array_sort:
  assumes "\<And>a b c. cmp a b \<le> 0 \<Longrightarrow> cmp b c \<le> 0 \<Longrightarrow> cmp a c \<le> 0"
    and "\<And>a b. cmp a b \<le> 0 \<or> cmp b a \<le> 0"
  shows "sorted_wrt (\<lambda>a b. cmp a b \<le> 0) (Array_sort cmp xs)"
proof (induction xs)
  case Nil
  show ?case by (simp add: Array_sort_def)
next
  case (Cons x xs)
  have "Array_sort cmp (x # xs) = sort_insert cmp x (Array_sort cmp xs)"
    by (simp add: Array_sort_def)
  with Cons show ?case
    using sorted_sort_insert [of cmp "Array_sort cmp xs" x] assms by simp
qed

subsection \<open>The query\<close>

lemma querySpans_unlimited:
  "querySpans P (f\<lparr>f_limit := None\<rparr>) db =
   Array_sort (newest_first P) (filter (\<lambda>s. selected f s \<and> narrowed f s) (spans db))"
  unfolding querySpans_def Let_def selected_def narrowed_def newest_first_def index_getAll_def
    by_trace_def by_type_def by_entity_def
  by (cases "present (f_trace_id f)"; cases "present (f_type f)"; cases "present (f_entity f)";
      cases "present (f_user_id f)"; cases "present (f_from f)"; cases "present (f_to f)"; simp)

lemma querySpans_limit:
  "querySpans P f db =
     (case f_limit f of
        None \<Rightarrow> querySpans P (f\<lparr>f_limit := None\<rparr>) db
      | Some n \<Rightarrow> if n = 0 then querySpans P (f\<lparr>f_limit := None\<rparr>) db
                  else slice0 n (querySpans P (f\<lparr>f_limit := None\<rparr>) db))"
  by (simp add: querySpans_def Let_def split: option.splits)

text \<open>
  C4, as the code has it. Of \<open>trace_id\<close>, \<open>type\<close> and \<open>entity\<close> only the first that is
  given (and not empty) selects, through its index; \<open>user_id\<close>, \<open>from\<close> and \<open>to\<close> then
  narrow, each when given. Without a limit the result is the stable sort, newest first,
  of exactly the spans of the store that pass; it is ordered by \<open>started_at\<close> descending
  when \<open>localeCompare\<close> orders consistently. A limit that is given and not 0 cuts the
  sorted list; the limit 0 cuts nothing.
\<close>

theorem querySpans_first_index_then_narrow:
  assumes "\<forall>a b c. localeCompare P a b \<le> 0 \<longrightarrow> localeCompare P b c \<le> 0 \<longrightarrow> localeCompare P a c \<le> 0"
    and "\<forall>a b. localeCompare P a b \<le> 0 \<or> localeCompare P b a \<le> 0"
  shows "querySpans P (f\<lparr>f_limit := None\<rparr>) db =
           Array_sort (newest_first P) (filter (\<lambda>s. selected f s \<and> narrowed f s) (spans db))
    \<and> set (querySpans P (f\<lparr>f_limit := None\<rparr>) db) = {s \<in> set (spans db). selected f s \<and> narrowed f s}
    \<and> sorted_wrt (\<lambda>x y. localeCompare P (started_at y) (started_at x) \<le> 0) (querySpans P (f\<lparr>f_limit := None\<rparr>) db)
    \<and> querySpans P f db =
         (case f_limit f of
            None \<Rightarrow> querySpans P (f\<lparr>f_limit := None\<rparr>) db
          | Some n \<Rightarrow> if n = 0 then querySpans P (f\<lparr>f_limit := None\<rparr>) db
                      else slice0 n (querySpans P (f\<lparr>f_limit := None\<rparr>) db))"
proof -
  have trans: "newest_first P a b \<le> 0 \<Longrightarrow> newest_first P b c \<le> 0 \<Longrightarrow> newest_first P a c \<le> 0" for a b c
    using assms(1) by (simp add: newest_first_def; blast)
  have total: "newest_first P a b \<le> 0 \<or> newest_first P b a \<le> 0" for a b
    using assms(2) by (simp add: newest_first_def)
  have "sorted_wrt (\<lambda>a b. newest_first P a b \<le> 0)
          (Array_sort (newest_first P) (filter (\<lambda>s. selected f s \<and> narrowed f s) (spans db)))"
    using trans total by (rule sorted_Array_sort)
  then have "sorted_wrt (\<lambda>x y. localeCompare P (started_at y) (started_at x) \<le> 0)
          (querySpans P (f\<lparr>f_limit := None\<rparr>) db)"
    by (simp add: querySpans_unlimited newest_first_def)
  moreover have "set (querySpans P (f\<lparr>f_limit := None\<rparr>) db) = {s \<in> set (spans db). selected f s \<and> narrowed f s}"
    by (simp add: querySpans_unlimited set_Array_sort)
  ultimately show ?thesis
    using querySpans_unlimited [of P f db] querySpans_limit [of P f db] by blast
qed

lemma demo_localeCompare:
  "localeCompare demo a b \<le> 0 \<Longrightarrow> localeCompare demo b c \<le> 0 \<Longrightarrow> localeCompare demo a c \<le> 0"
  "localeCompare demo a b \<le> 0 \<or> localeCompare demo b a \<le> 0"
  by (auto simp: demo_def split: if_splits)

text \<open>
  The statement at the filter with the trace \<open>t1\<close>, the type \<open>contract.created\<close> and the
  limit 1, on the store with the two spans of \<open>t1\<close>.
\<close>

theorem querySpans_first_index_then_narrow_witness:
  "querySpans demo (trace_and_type\<lparr>f_limit := Some 1, f_limit := None\<rparr>) db_two =
     Array_sort (newest_first demo)
       (filter (\<lambda>s. selected (trace_and_type\<lparr>f_limit := Some 1\<rparr>) s \<and> narrowed (trace_and_type\<lparr>f_limit := Some 1\<rparr>) s)
          (spans db_two))
   \<and> set (querySpans demo (trace_and_type\<lparr>f_limit := Some 1, f_limit := None\<rparr>) db_two) =
       {s \<in> set (spans db_two). selected (trace_and_type\<lparr>f_limit := Some 1\<rparr>) s \<and> narrowed (trace_and_type\<lparr>f_limit := Some 1\<rparr>) s}
   \<and> sorted_wrt (\<lambda>x y. localeCompare demo (started_at y) (started_at x) \<le> 0)
        (querySpans demo (trace_and_type\<lparr>f_limit := Some 1, f_limit := None\<rparr>) db_two)
   \<and> querySpans demo (trace_and_type\<lparr>f_limit := Some 1, f_limit := None\<rparr>) db_two = [cancelled2, created1h]
   \<and> querySpans demo (trace_and_type\<lparr>f_limit := Some 1\<rparr>) db_two = [cancelled2]"
proof -
  have t1: "\<forall>a b c. localeCompare demo a b \<le> 0 \<longrightarrow> localeCompare demo b c \<le> 0 \<longrightarrow> localeCompare demo a c \<le> 0"
    using demo_localeCompare(1) by blast
  have t2: "\<forall>a b. localeCompare demo a b \<le> 0 \<or> localeCompare demo b a \<le> 0"
    using demo_localeCompare(2) by blast
  note inst = querySpans_first_index_then_narrow
    [where P = demo and f = "trace_and_type\<lparr>f_limit := Some 1\<rparr>" and db = db_two, OF t1 t2]
  have q: "querySpans demo (trace_and_type\<lparr>f_limit := Some 1, f_limit := None\<rparr>) db_two = [cancelled2, created1h]"
    by (simp add: query_defs data_defs trace_and_type_def)
  have l: "querySpans demo (trace_and_type\<lparr>f_limit := Some 1\<rparr>) db_two = [cancelled2]"
    by (simp add: query_defs data_defs trace_and_type_def)
  from inst q l show ?thesis by blast
qed

text \<open>
  A filter that gives the trace \<open>t1\<close> and the type \<open>contract.created\<close>: the result holds
  the cancellation span, whose type is another. The type of the filter was not applied.
\<close>

theorem querySpans_type_ignored_counterexample:
  "f_trace_id trace_and_type = Some ''t1''
   \<and> f_type trace_and_type = Some ''contract.created''
   \<and> querySpans demo trace_and_type db_two = [cancelled2, created1h]
   \<and> type cancelled2 \<noteq> ''contract.created''"
  by (simp add: query_defs data_defs trace_and_type_def)

subsection \<open>The object store\<close>

lemma find_insort_key_fresh:
  "key x \<notin> set (map key xs) \<Longrightarrow> find (\<lambda>y. key y = key x) (insort_key key x xs) = Some x"
  by (induction xs) auto

lemma index_getAll_insort:
  "set (index_getAll keyPath k (insort_key key x xs)) =
   set (index_getAll keyPath k xs) \<union> (if keyPath x = Some k then {x} else {})"
  by (auto simp: index_getAll_def set_insort_key)

text \<open>
  C5. \<open>appendSpan\<close> is \<open>add\<close> on the store keyed by \<open>id\<close>. With an \<open>id\<close> that is in the
  store it fails with a ConstraintError and the database after the call is the database
  before it. With a fresh \<open>id\<close> it succeeds: the store holds the new span and the old
  ones, in the order of their keys, a lookup by the \<open>id\<close> finds the new span, and every
  index (every key path, so each of \<open>by-trace\<close>, \<open>by-type\<close>, \<open>by-entity\<close>, \<open>by-time\<close>,
  \<open>by-user\<close>) returns the new span under its key and what it returned before. The
  indices are read off the store, so no state exists in which the store has the span
  and an index has not.
\<close>

theorem appendSpan_append_only:
  "(id' span \<in> set (map id' (spans db)) \<longrightarrow> appendSpan span db = (Inl ConstraintError, db))
   \<and> (id' span \<notin> set (map id' (spans db)) \<longrightarrow>
        fst (appendSpan span db) = Inr ()
        \<and> set (spans (snd (appendSpan span db))) = insert span (set (spans db))
        \<and> length (spans (snd (appendSpan span db))) = Suc (length (spans db))
        \<and> idb_get id' (id' span) (spans (snd (appendSpan span db))) = Some span
        \<and> (sorted (map id' (spans db)) \<longrightarrow> sorted (map id' (spans (snd (appendSpan span db)))))
        \<and> (\<forall>keyPath k. set (index_getAll keyPath k (spans (snd (appendSpan span db)))) =
               set (index_getAll keyPath k (spans db)) \<union> (if keyPath span = Some k then {span} else {}))
        \<and> contracts (snd (appendSpan span db)) = contracts db
        \<and> identity (snd (appendSpan span db)) = identity db)"
proof (intro conjI impI)
  assume "id' span \<in> set (map id' (spans db))"
  then show "appendSpan span db = (Inl ConstraintError, db)"
    by (simp add: appendSpan_def idb_add_def)
next
  assume fresh: "id' span \<notin> set (map id' (spans db))"
  then have app: "appendSpan span db = (Inr (), db\<lparr>spans := insort_key id' span (spans db)\<rparr>)"
    by (simp add: appendSpan_def idb_add_def)
  show "fst (appendSpan span db) = Inr ()" by (simp add: app)
  show "set (spans (snd (appendSpan span db))) = insert span (set (spans db))"
    by (simp add: app set_insort_key)
  show "length (spans (snd (appendSpan span db))) = Suc (length (spans db))"
    by (simp add: app)
  show "idb_get id' (id' span) (spans (snd (appendSpan span db))) = Some span"
    using fresh by (simp add: app idb_get_def find_insort_key_fresh)
  show "\<forall>keyPath k. set (index_getAll keyPath k (spans (snd (appendSpan span db)))) =
               set (index_getAll keyPath k (spans db)) \<union> (if keyPath span = Some k then {span} else {})"
    by (simp add: app index_getAll_insort)
  show "contracts (snd (appendSpan span db)) = contracts db" by (simp add: app)
  show "identity (snd (appendSpan span db)) = identity db" by (simp add: app)
  assume "sorted (map id' (spans db))"
  then show "sorted (map id' (spans (snd (appendSpan span db))))"
    by (simp add: app sorted_insort_key)
qed

text \<open>
  Appending the creation span to the store that holds it fails and leaves the database;
  appending the cancellation span to that store gives the store with both.
\<close>

theorem appendSpan_append_only_witness:
  "id' created1h \<in> set (map id' (spans db_one))
   \<and> appendSpan created1h db_one = (Inl ConstraintError, db_one)
   \<and> id' cancelled2 \<notin> set (map id' (spans db_one))
   \<and> appendSpan cancelled2 db_one = (Inr (), db_two)
   \<and> idb_get id' ''s2'' (spans db_two) = Some cancelled2
   \<and> set (index_getAll by_trace ''t1'' (spans db_two)) = {created1h, cancelled2}
   \<and> set (index_getAll by_type ''contract.cancelled'' (spans db_two)) = {cancelled2}"
proof -
  have dup: "id' created1h \<in> set (map id' (spans db_one))"
    by (simp add: db_one_def)
  have fresh: "id' cancelled2 \<notin> set (map id' (spans db_one))"
    by (simp add: db_one_def created1h_def created1_def cancelled2_def)
  have run: "appendSpan cancelled2 db_one = (Inr (), db_two)"
    by (simp add: appendSpan_def idb_add_def db_one_def db_two_def created1h_def created1_def cancelled2_def)
  have ix: "index_getAll by_trace ''t1'' (spans db_one) = [created1h]"
       "index_getAll by_type ''contract.cancelled'' (spans db_one) = []"
       "by_trace cancelled2 = Some ''t1''" "by_type cancelled2 = Some ''contract.cancelled''"
    by (simp_all add: index_getAll_def by_trace_def by_type_def db_one_def created1h_def created1_def cancelled2_def)
  have id2: "id' cancelled2 = ''s2''"
    by (simp add: cancelled2_def)
  have a: "appendSpan created1h db_one = (Inl ConstraintError, db_one)"
    using appendSpan_append_only [of created1h db_one] dup by blast
  have b: "idb_get id' (id' cancelled2) (spans (snd (appendSpan cancelled2 db_one))) = Some cancelled2"
    using appendSpan_append_only [of cancelled2 db_one] fresh by blast
  have c: "set (index_getAll keyPath k (spans (snd (appendSpan cancelled2 db_one)))) =
           set (index_getAll keyPath k (spans db_one)) \<union> (if keyPath cancelled2 = Some k then {cancelled2} else {})"
    for keyPath k
    using appendSpan_append_only [of cancelled2 db_one] fresh by blast
  show ?thesis
    using dup fresh a b c [of by_trace "''t1''"] c [of by_type "''contract.cancelled''"]
    by (simp add: run ix id2 insert_commute)
qed

subsection \<open>The verifier\<close>

lemma verifySpans_acc:
  "verifySpans P db spanList errs xs = errs @ concat (map (checkSpan P db spanList) xs)"
  by (induction xs arbitrary: errs) simp_all

lemma verifyContracts_acc:
  "verifyContracts P db acc cs =
     (fst acc @ concat (map (\<lambda>c. concat (map (checkSpan P db (getSpansByTrace P (c_id c) db))
                                               (getSpansByTrace P (c_id c) db))) cs),
      snd acc + sum_list (map (\<lambda>c. length (getSpansByTrace P (c_id c) db)) cs))"
  by (induction cs arbitrary: acc) (simp_all add: Let_def verifySpans_acc)

text \<open>
  What the pass collects: \<open>verifyLedger\<close> goes through the contract records of the view
  (\<open>getAllContracts\<close>) and, for every record, through every span of its trace; the report
  holds, in that order, every error that the three checks give for every span it goes
  through; nothing stops the pass. \<open>total\<close> is the number of spans gone through and
  \<open>valid\<close> says that there is no error.
\<close>

lemma verifyLedger_report:
  "errors (verifyLedger P db) =
     concat (map (\<lambda>c. concat (map (checkSpan P db (getSpansByTrace P (c_id c) db))
                                     (getSpansByTrace P (c_id c) db)))
                 (getAllContracts P db))
   \<and> total (verifyLedger P db) =
       sum_list (map (\<lambda>c. length (getSpansByTrace P (c_id c) db)) (getAllContracts P db))
   \<and> valid (verifyLedger P db) = (errors (verifyLedger P db) = [])"
  by (simp add: verifyLedger_def Let_def verifyContracts_acc)

text \<open>
  When a span gets the error of the hash check and when it gets the error of the parent
  check (for the signature check see \<open>invalid_signature_recorded_iff\<close>).
\<close>

lemma hash_mismatch_recorded_iff:
  "\<lparr>span_id = id' span,
     error = ''Hash mismatch: expected '' @ hash (this span) @ '', got '' @ calculateSpanHashT P span\<rparr>
     \<in> set (checkSpan P db spanList span) \<longleftrightarrow>
   hash (this span) \<noteq> calculateSpanHashT P span"
proof -
  let ?e = "\<lparr>span_id = id' span,
     error = ''Hash mismatch: expected '' @ hash (this span) @ '', got '' @ calculateSpanHashT P span\<rparr>"
  have s: "?e \<noteq> \<lparr>span_id = i, error = ''Invalid signature''\<rparr>" for i
    by simp
  have p: "?e \<noteq> \<lparr>span_id = i, error = ''Parent span '' @ x\<rparr>" for i x
    by simp
  have ss: "?e \<notin> set (case confirmed_by span of
               None \<Rightarrow> []
             | Some c \<Rightarrow>
                 if signature c = [] then []
                 else (case getIdentity db of
                         None \<Rightarrow> []
                       | Some idn \<Rightarrow>
                           if verifySpan P span (private_key_handle idn) then []
                           else [\<lparr>span_id = id' span, error = ''Invalid signature''\<rparr>]))"
    using s by (simp del: append.simps split: option.splits)
  have ps: "?e \<notin> set (case present (parent_id span) of
               None \<Rightarrow> []
             | Some p \<Rightarrow>
                 if list_ex (\<lambda>s. id' s = p) spanList then []
                 else [\<lparr>span_id = id' span, error = ''Parent span '' @ p @ '' not found''\<rparr>])"
    using p by (simp del: append.simps split: option.splits)
  have hs: "?e \<in> set (if hash (this span) \<noteq> calculateSpanHashT P span
             then [\<lparr>span_id = id' span,
                    error = ''Hash mismatch: expected '' @ hash (this span) @ '', got '' @ calculateSpanHashT P span\<rparr>]
             else []) \<longleftrightarrow> hash (this span) \<noteq> calculateSpanHashT P span"
    by simp
  show ?thesis
    unfolding checkSpan_def Let_def set_append Un_iff
    using hs ps ss by blast
qed

lemma missing_parent_recorded_iff:
  "\<lparr>span_id = id' span, error = ''Parent span '' @ p @ '' not found''\<rparr>
     \<in> set (checkSpan P db spanList span) \<longleftrightarrow>
   present (parent_id span) = Some p \<and> \<not> list_ex (\<lambda>s. id' s = p) spanList"
proof -
  let ?e = "\<lparr>span_id = id' span, error = ''Parent span '' @ p @ '' not found''\<rparr>"
  have s: "?e \<noteq> \<lparr>span_id = i, error = ''Invalid signature''\<rparr>" for i
    by simp
  have h: "?e \<noteq> \<lparr>span_id = i, error = ''Hash mismatch: expected '' @ x\<rparr>" for i x
    by simp
  have ss: "?e \<notin> set (case confirmed_by span of
               None \<Rightarrow> []
             | Some c \<Rightarrow>
                 if signature c = [] then []
                 else (case getIdentity db of
                         None \<Rightarrow> []
                       | Some idn \<Rightarrow>
                           if verifySpan P span (private_key_handle idn) then []
                           else [\<lparr>span_id = id' span, error = ''Invalid signature''\<rparr>]))"
    using s by (simp del: append.simps split: option.splits)
  have hs: "?e \<notin> set (if hash (this span) \<noteq> calculateSpanHashT P span
             then [\<lparr>span_id = id' span,
                    error = ''Hash mismatch: expected '' @ hash (this span) @ '', got '' @ calculateSpanHashT P span\<rparr>]
             else [])"
    using h by (simp del: append.simps)
  have ps: "?e \<in> set (case present (parent_id span) of
               None \<Rightarrow> []
             | Some p \<Rightarrow>
                 if list_ex (\<lambda>s. id' s = p) spanList then []
                 else [\<lparr>span_id = id' span, error = ''Parent span '' @ p @ '' not found''\<rparr>]) \<longleftrightarrow>
     present (parent_id span) = Some p \<and> \<not> list_ex (\<lambda>s. id' s = p) spanList"
    by (cases "present (parent_id span)") auto
  show ?thesis
    unfolding checkSpan_def Let_def set_append Un_iff
    using hs ps ss by blast
qed

text \<open>
  The ledger with the contract of \<open>t1\<close> and the two spans of \<open>t1\<close>, neither with the hash
  that is recomputed for it: both are examined and both mismatches are in the report.
\<close>

lemma verifyLedger_report_two_spans:
  "errors (verifyLedger demo (db_two\<lparr>contracts := [contract_first]\<rparr>)) =
     checkSpan demo (db_two\<lparr>contracts := [contract_first]\<rparr>) [cancelled2, created1h] cancelled2
     @ checkSpan demo (db_two\<lparr>contracts := [contract_first]\<rparr>) [cancelled2, created1h] created1h
   \<and> total (verifyLedger demo (db_two\<lparr>contracts := [contract_first]\<rparr>)) = 2
   \<and> valid (verifyLedger demo (db_two\<lparr>contracts := [contract_first]\<rparr>)) = False
   \<and> map span_id (errors (verifyLedger demo (db_two\<lparr>contracts := [contract_first]\<rparr>))) = [''s2'', ''s1'']"
proof -
  have s: "getSpansByTrace demo ''t1'' (db_two\<lparr>contracts := [contract_first]\<rparr>) = [cancelled2, created1h]"
    by (simp add: query_defs data_defs)
  have c: "getAllContracts demo (db_two\<lparr>contracts := [contract_first]\<rparr>) = [contract_first]"
    by (simp add: getAllContracts_def Array_sort_def)
  have h2: "calculateSpanHashT demo cancelled2 \<noteq> hash (this cancelled2)"
    by (simp add: hash_defs data_defs)
  have h1: "calculateSpanHashT demo created1h \<noteq> hash (this created1h)"
    by (simp add: hash_defs data_defs)
  have e2: "map span_id (checkSpan demo (db_two\<lparr>contracts := [contract_first]\<rparr>) [cancelled2, created1h] cancelled2) = [''s2'']"
    using h2 by (simp add: checkSpan_def Let_def present_def) (simp add: cancelled2_def)
  have e1: "map span_id (checkSpan demo (db_two\<lparr>contracts := [contract_first]\<rparr>) [cancelled2, created1h] created1h) = [''s1'']"
    using h1 by (simp add: checkSpan_def Let_def present_def) (simp add: created1h_def created1_def)
  have id: "c_id contract_first = ''t1''" by (simp add: contract_first_def)
  from verifyLedger_report [of demo "db_two\<lparr>contracts := [contract_first]\<rparr>"] e1 e2
  show ?thesis
    by (simp add: c s id) auto
qed

text \<open>
  C6. \<open>verifyLedger\<close> starts from the contract records of the view, not from the spans
  of the store, so a trace is examined only when the view has a record for it. A creation
  span of \<open>t1\<close> with the entity \<open>payment\<close>, appended to the empty ledger by
  \<open>appendToLedger\<close>, is stored and, its entity not being \<open>minicontrato\<close>, no contract
  record is written. The trace then holds a \<open>contract.created\<close> span that fails the hash
  check, and the report is valid with no span examined. The same span with the entity
  \<open>minicontrato\<close> gets its record, is examined and is reported.
\<close>

theorem verifyLedger_skips_trace_without_record:
  "appendToLedger demo ''2025-01-01T00:00:02Z'' ''2025-01-01T00:00:02Z'' created_other empty_db
     = (Inr (), \<lparr>spans = [created_other], contracts = [], identity = None\<rparr>)
   \<and> type created_other = ''contract.created''
   \<and> checkSpan demo \<lparr>spans = [created_other], contracts = [], identity = None\<rparr> [created_other] created_other
       = [\<lparr>span_id = ''s1'', error = ''Hash mismatch: expected blake3:aa, got blake3:ce''\<rparr>]
   \<and> verifyLedger demo \<lparr>spans = [created_other], contracts = [], identity = None\<rparr>
       = \<lparr>valid = True, total = 0, errors = []\<rparr>
   \<and> verifyLedger demo (snd (appendToLedger demo ''2025-01-01T00:00:02Z'' ''2025-01-01T00:00:02Z'' created1h empty_db))
       = \<lparr>valid = False, total = 1,
          errors = [\<lparr>span_id = ''s1'', error = ''Hash mismatch: expected blake3:aa, got blake3:d3''\<rparr>]\<rparr>"
proof -
  have o: "calculateSpanHashT demo created_other = ''blake3:ce''"
    by (simp add: hash_defs data_defs created_other_def)
  have h: "calculateSpanHashT demo created1h = ''blake3:d3''"
    by (simp add: hash_defs data_defs)
  have fo: "id' created_other = ''s1''" "hash (this created_other) = ''blake3:aa''" "parent_id created_other = None"
    "confirmed_by created_other = None" "type created_other = ''contract.created''"
    "entity created_other = ''payment''" "trace_id created_other = ''t1''"
    by (simp_all add: created_other_def created1h_def created1_def)
  have fh: "id' created1h = ''s1''" "hash (this created1h) = ''blake3:aa''" "parent_id created1h = None"
    "confirmed_by created1h = None" "type created1h = ''contract.created''"
    "entity created1h = ''minicontrato''" "trace_id created1h = ''t1''" "body created1h = body0"
    "started_at created1h = ''2025-01-01T00:00:00Z''"
    by (simp_all add: created1h_def created1_def)
  have 1: "appendToLedger demo ''2025-01-01T00:00:02Z'' ''2025-01-01T00:00:02Z'' created_other empty_db
     = (Inr (), \<lparr>spans = [created_other], contracts = [], identity = None\<rparr>)"
    by (simp add: appendToLedger_def hashAndSign_def getIdentity_def appendSpan_def idb_add_def empty_db_def fo)
  have 2: "checkSpan demo \<lparr>spans = [created_other], contracts = [], identity = None\<rparr> [created_other] created_other
       = [\<lparr>span_id = ''s1'', error = ''Hash mismatch: expected blake3:aa, got blake3:ce''\<rparr>]"
    by (simp add: checkSpan_def Let_def present_def o fo)
  have 3: "verifyLedger demo \<lparr>spans = [created_other], contracts = [], identity = None\<rparr>
       = \<lparr>valid = True, total = 0, errors = []\<rparr>"
    by (simp add: verifyLedger_def getAllContracts_def Array_sort_def)
  have app: "snd (appendToLedger demo ''2025-01-01T00:00:02Z'' ''2025-01-01T00:00:02Z'' created1h empty_db)
      = \<lparr>spans = [created1h],
         contracts = [\<lparr>c_id = ''t1'', title = JString ''Rent'', description = JUndefined, parties = [],
            status = Active, created_at = ''2025-01-01T00:00:00Z'', updated_at = ''2025-01-01T00:00:02Z'',
            c_completed_at = None, c_spans = [''s1''], c_metadata = JUndefined\<rparr>],
         identity = None\<rparr>"
    by (simp add: appendToLedger_def hashAndSign_def query_defs store_defs projector_defs fh
        empty_db_def body0_def)
  have 4: "verifyLedger demo (snd (appendToLedger demo ''2025-01-01T00:00:02Z'' ''2025-01-01T00:00:02Z'' created1h empty_db))
       = \<lparr>valid = False, total = 1,
          errors = [\<lparr>span_id = ''s1'', error = ''Hash mismatch: expected blake3:aa, got blake3:d3''\<rparr>]\<rparr>"
    unfolding app
    by (simp add: verifyLedger_def query_defs store_defs fh checkSpan_def h)
  from 1 2 3 4 fo(5) show ?thesis by blast
qed

subsection \<open>The append path\<close>

lemma updateContractFromSpans_spans:
  "spans (snd (updateContractFromSpans P now traceId db)) = spans db"
  by (simp add: updateContractFromSpans_def Let_def saveContract_def split: option.splits sum.splits)

lemma calculateSpanHashT_nonempty: "calculateSpanHashT P span \<noteq> []"
  by (simp add: calculateSpanHashT_def calculateSpanHash_def calculateHash_def)

lemma hashAndSign_unchanged:
  "hash (this span) \<noteq> [] \<Longrightarrow> confirmed_by span \<noteq> None \<Longrightarrow> hashAndSign P signedAt span db = Inr span"
  by (auto simp: hashAndSign_def Let_def split: option.splits)

lemma hashAndSign_result:
  assumes "hashAndSign P signedAt span db = Inr span2"
  shows "hash (this span2) = (if hash (this span) = [] then calculateSpanHashT P span else hash (this span))"
    and "version (this span2) = version (this span)"
    and "span2\<lparr>this := this span, confirmed_by := confirmed_by span\<rparr> = span"
    and "confirmed_by span \<noteq> None \<or> getIdentity db = None \<Longrightarrow> confirmed_by span2 = confirmed_by span"
    and "confirmed_by span = None \<Longrightarrow> getIdentity db = Some idn \<Longrightarrow>
           \<exists>sig. sign P (hash (this span2)) (private_key_handle idn) = Inr sig
             \<and> confirmed_by span2 = Some \<lparr>signature = sig, domain = ''minicontratos.local'',
                                          timestamp = signedAt, signer_id = user_id idn\<rparr>"
  using assms
  by (auto simp: hashAndSign_def Let_def signSpan_def calculateSpanHashT_nonempty hash_ignores_stored_hash
      split: option.splits if_splits sum.splits)


lemma appendToLedger_spans:
  assumes "hashAndSign P signedAt span db = Inr span2"
    and "id' span2 \<notin> set (map id' (spans db))"
  shows "spans (snd (appendToLedger P signedAt now span db)) = insort_key id' span2 (spans db)"
  using assms
  by (simp add: appendToLedger_def appendSpan_def idb_add_def updateContractFromSpans_spans)

text \<open>
  C10. A span that comes with a hash and a confirmation passes steps 1 and 2 of
  \<open>appendToLedger\<close> unchanged and, its \<open>id\<close> being fresh, is stored as it came. In
  general the span handed to \<open>appendSpan\<close> differs from the argument at most in
  \<open>this.hash\<close> and \<open>confirmed_by\<close>: the hash is the given one unless that is empty, and
  then the computed one; the confirmation is the given one unless there is none, and
  then, when a local identity exists, a new one for that identity with the signature of
  the hash, and none when no identity exists. When signing fails nothing is stored.
\<close>

theorem appendToLedger_keeps_hash_and_confirmation:
  "(hash (this span) \<noteq> [] \<and> confirmed_by span \<noteq> None \<longrightarrow>
      hashAndSign P signedAt span db = Inr span
      \<and> (id' span \<notin> set (map id' (spans db)) \<longrightarrow>
            spans (snd (appendToLedger P signedAt now span db)) = insort_key id' span (spans db)
            \<and> idb_get id' (id' span) (spans (snd (appendToLedger P signedAt now span db))) = Some span))
   \<and> (hashAndSign P signedAt span db = Inr span2 \<longrightarrow>
        hash (this span2) = (if hash (this span) = [] then calculateSpanHashT P span else hash (this span))
        \<and> version (this span2) = version (this span)
        \<and> span2\<lparr>this := this span, confirmed_by := confirmed_by span\<rparr> = span
        \<and> (confirmed_by span \<noteq> None \<or> getIdentity db = None \<longrightarrow> confirmed_by span2 = confirmed_by span)
        \<and> (confirmed_by span = None \<longrightarrow>
             (\<forall>idn. getIdentity db = Some idn \<longrightarrow>
                (\<exists>sig. sign P (hash (this span2)) (private_key_handle idn) = Inr sig
                   \<and> confirmed_by span2 = Some \<lparr>signature = sig, domain = ''minicontratos.local'',
                                                timestamp = signedAt, signer_id = user_id idn\<rparr>)))
        \<and> (id' span \<notin> set (map id' (spans db)) \<longrightarrow>
             spans (snd (appendToLedger P signedAt now span db)) = insort_key id' span2 (spans db)))
   \<and> (\<forall>e. hashAndSign P signedAt span db = Inl e \<longrightarrow> appendToLedger P signedAt now span db = (Inl e, db))"
proof (intro conjI impI allI)
  assume a: "hash (this span) \<noteq> [] \<and> confirmed_by span \<noteq> None"
  then show u: "hashAndSign P signedAt span db = Inr span"
    by (simp add: hashAndSign_unchanged)
  assume fresh: "id' span \<notin> set (map id' (spans db))"
  with u show s: "spans (snd (appendToLedger P signedAt now span db)) = insort_key id' span (spans db)"
    by (simp add: appendToLedger_spans)
  show "idb_get id' (id' span) (spans (snd (appendToLedger P signedAt now span db))) = Some span"
    using fresh by (simp add: s idb_get_def find_insort_key_fresh)
next
  assume r: "hashAndSign P signedAt span db = Inr span2"
  note res = hashAndSign_result [OF r]
  show "hash (this span2) = (if hash (this span) = [] then calculateSpanHashT P span else hash (this span))"
    by (rule res)
  show "version (this span2) = version (this span)"
    by (rule res)
  show frame: "span2\<lparr>this := this span, confirmed_by := confirmed_by span\<rparr> = span"
    by (rule res)
  {
    assume "confirmed_by span \<noteq> None \<or> getIdentity db = None"
    then show "confirmed_by span2 = confirmed_by span"
      by (rule res)
  }
  {
    fix idn
    assume "confirmed_by span = None" and "getIdentity db = Some idn"
    then show "\<exists>sig. sign P (hash (this span2)) (private_key_handle idn) = Inr sig
       \<and> confirmed_by span2 = Some \<lparr>signature = sig, domain = ''minicontratos.local'',
                                    timestamp = signedAt, signer_id = user_id idn\<rparr>"
      by (rule res)
  }
  {
    assume fresh: "id' span \<notin> set (map id' (spans db))"
    have "id' span2 = id' (span2\<lparr>this := this span, confirmed_by := confirmed_by span\<rparr>)"
      by simp
    then have "id' span2 = id' span"
      by (simp only: frame)
    with fresh r show "spans (snd (appendToLedger P signedAt now span db)) = insort_key id' span2 (spans db)"
      by (simp add: appendToLedger_spans)
  }
next
  fix e
  assume "hashAndSign P signedAt span db = Inl e"
  then show "appendToLedger P signedAt now span db = (Inl e, db)"
    by (simp add: appendToLedger_def)
qed

text \<open>
  On the ledger of \<open>ana\<close>: the span \<open>signed1\<close>, which has a hash and a confirmation, is
  stored as it is; the span \<open>created1\<close>, which has neither, is stored with the computed
  hash and a confirmation by \<open>ana\<close>.
\<close>

theorem appendToLedger_keeps_hash_and_confirmation_witness:
  "hash (this signed1) \<noteq> [] \<and> confirmed_by signed1 \<noteq> None
   \<and> hashAndSign demo ''2025-01-01T00:00:09Z'' signed1 ana_db = Inr signed1
   \<and> spans (snd (appendToLedger demo ''2025-01-01T00:00:09Z'' ''2025-01-01T00:00:09Z'' signed1 ana_db)) = [signed1]
   \<and> hashAndSign demo ''2025-01-01T00:00:01Z'' created1 ana_db = Inr created1_stored
   \<and> hash (this created1_stored) = calculateSpanHashT demo created1
   \<and> spans (snd (appendToLedger demo ''2025-01-01T00:00:01Z'' ''2025-01-01T00:00:02Z'' created1 ana_db)) = [created1_stored]"
proof -
  have p: "hash (this signed1) \<noteq> [] \<and> confirmed_by signed1 \<noteq> None"
    by (simp add: signed1_def)
  have fresh: "id' signed1 \<notin> set (map id' (spans ana_db))" "id' created1 \<notin> set (map id' (spans ana_db))"
    by (simp_all add: ana_db_def)
  have h: "calculateSpanHashT demo created1 = ''blake3:d3''"
    by (simp add: hash_defs data_defs)
  have s: "sign demo ''blake3:d3'' (PrivateKey 7) = Inr ''ed25519:07626c616b65333a6433''"
    by (simp add: sign_def subtle_sign_def demo_def bytesToHex_def byteToHex_def hex_digit_def)
  have f: "hash (this created1) = []" "confirmed_by created1 = None"
    by (simp_all add: created1_def)
  have eq: "created1\<lparr>this := (this created1)\<lparr>hash := ''blake3:d3''\<rparr>,
      confirmed_by := Some \<lparr>signature = ''ed25519:07626c616b65333a6433'', domain = ''minicontratos.local'',
        timestamp = ''2025-01-01T00:00:01Z'', signer_id = ''ana''\<rparr>\<rparr> = created1_stored"
    by (simp add: created1_def created1_stored_def)
  have r: "hashAndSign demo ''2025-01-01T00:00:01Z'' created1 ana_db = Inr created1_stored"
    by (simp add: hashAndSign_def signSpan_def Let_def h f s getIdentity_def ana_db_def ana_def eq)
  note a = appendToLedger_keeps_hash_and_confirmation
    [where P = demo and span = signed1 and db = ana_db and signedAt = "''2025-01-01T00:00:09Z''"
      and now = "''2025-01-01T00:00:09Z''" and ?span2.0 = signed1]
  note b = appendToLedger_keeps_hash_and_confirmation
    [where P = demo and span = created1 and db = ana_db and signedAt = "''2025-01-01T00:00:01Z''"
      and now = "''2025-01-01T00:00:02Z''" and ?span2.0 = created1_stored]
  have a1: "hashAndSign demo ''2025-01-01T00:00:09Z'' signed1 ana_db = Inr signed1"
    using a p by blast
  have a2: "spans (snd (appendToLedger demo ''2025-01-01T00:00:09Z'' ''2025-01-01T00:00:09Z'' signed1 ana_db))
      = insort_key id' signed1 (spans ana_db)"
    using a p fresh by blast
  have b1: "hash (this created1_stored) = (if hash (this created1) = [] then calculateSpanHashT demo created1 else hash (this created1))"
    using b r by blast
  have b2: "spans (snd (appendToLedger demo ''2025-01-01T00:00:01Z'' ''2025-01-01T00:00:02Z'' created1 ana_db))
      = insort_key id' created1_stored (spans ana_db)"
    using b r fresh by blast
  have e: "hash (this created1) = []" by (simp add: created1_def)
  show ?thesis
    using p a1 a2 b1 b2 r by (simp add: e ana_db_def)
qed

subsection \<open>Extraction\<close>

lemma parseBlocks_acc:
  "parseBlocks P allSpans blocks = allSpans @ concat (map (block_objects P) blocks)"
  by (induction blocks arbitrary: allSpans)
     (simp_all add: block_objects_def split: option.splits json.splits)

lemma reply_blocks: "json_blocks reply_two_blocks = [''[{},{}]'', ''{bad'']"
  by (simp add: reply_two_blocks_def json_blocks.simps startsWith_def js_space_def trimEnd_def)

subsection \<open>Searching a text\<close>

text \<open>
  \<open>startsWith\<close> is \<open>prefix\<close> and \<open>indexOf\<close> finds nothing exactly when the pattern is no
  \<open>sublist\<close> of the text; what \<open>indexOf\<close> finds is the first occurrence.
\<close>

lemma startsWith_prefix: "startsWith s p = prefix p s"
  unfolding startsWith_def
  by (metis append_eq_conv_conj prefix_def take_is_prefix)

lemma indexOf_None_iff: "indexOf pat s = None \<longleftrightarrow> \<not> sublist pat s"
  by (induction s) (auto simp: sublist_Cons_right startsWith_prefix)

lemma indexOf_first:
  "(\<And>j. j < length pre \<Longrightarrow> \<not> startsWith (drop j pre @ rest) pat) \<Longrightarrow> startsWith rest pat \<Longrightarrow>
   indexOf pat (pre @ rest) = Some (length pre)"
proof (induction pre)
  case Nil
  then show ?case by (cases rest) (auto simp: startsWith_def)
next
  case (Cons c pre)
  have "\<not> startsWith (c # pre @ rest) pat"
    using Cons.prems(1) [of 0] by simp
  moreover have "indexOf pat (pre @ rest) = Some (length pre)"
  proof (rule Cons.IH)
    fix j assume "j < length pre"
    then show "\<not> startsWith (drop j pre @ rest) pat"
      using Cons.prems(1) [of "Suc j"] by simp
  qed (rule Cons.prems(2))
  ultimately show ?case by simp
qed

lemma indexOf_None_drop: "indexOf pat s = None \<Longrightarrow> \<not> startsWith (drop j s) pat"
proof (induction s arbitrary: j)
  case Nil
  then show ?case by (auto simp: startsWith_def split: if_splits)
next
  case (Cons c cs)
  then have a: "\<not> startsWith (c # cs) pat" and b: "indexOf pat cs = None"
    by (auto split: if_splits)
  show ?case
  proof (cases j)
    case 0
    then show ?thesis using a by simp
  next
    case (Suc j')
    then show ?thesis using Cons.IH [OF b, of j'] by simp
  qed
qed

lemma indexOf_None_suffix: "indexOf pat s = None \<Longrightarrow> indexOf pat (drop k s) = None"
proof (induction s arbitrary: k)
  case Nil
  then show ?case by simp
next
  case (Cons c cs)
  then show ?case by (cases k) (auto split: if_splits)
qed

lemma startsWith_take: "startsWith (take m s) pat \<Longrightarrow> startsWith s pat"
proof -
  assume a: "startsWith (take m s) pat"
  then have e: "take (length pat) (take m s) = pat"
    by (simp add: startsWith_def)
  then have "length pat \<le> m"
    by (metis length_take min.cobounded2 take_take min_def)
  with e show ?thesis
    by (simp add: startsWith_def min_def)
qed

lemma indexOf_Some_split:
  "indexOf pat s = Some i \<Longrightarrow> s = take i s @ pat @ drop (i + length pat) s"
proof (induction s arbitrary: i)
  case Nil
  then show ?case by (auto split: if_splits)
next
  case (Cons c cs)
  show ?case
  proof (cases "startsWith (c # cs) pat")
    case True
    then have "i = 0" using Cons.prems by simp
    moreover have "c # cs = pat @ drop (length pat) (c # cs)"
      using True by (metis append_take_drop_id startsWith_def)
    ultimately show ?thesis by simp
  next
    case False
    then obtain i' where i: "i = Suc i'" "indexOf pat cs = Some i'"
      using Cons.prems by auto
    then show ?thesis
      using Cons.IH [of i'] by simp
  qed
qed

lemma indexOf_Some_before:
  "pat \<noteq> [] \<Longrightarrow> indexOf pat s = Some i \<Longrightarrow> indexOf pat (take i s) = None"
proof (induction s arbitrary: i)
  case Nil
  then show ?case by (auto split: if_splits)
next
  case (Cons c cs)
  show ?case
  proof (cases "startsWith (c # cs) pat")
    case True
    then show ?thesis using Cons.prems by simp
  next
    case False
    then obtain i' where i: "i = Suc i'" "indexOf pat cs = Some i'"
      using Cons.prems by auto
    have "\<not> startsWith (take (Suc i') (c # cs)) pat"
      using False startsWith_take by blast
    then show ?thesis
      using Cons.IH [OF Cons.prems(1) i(2)] i by simp
  qed
qed

lemma indexOf_at_most:
  "\<exists>k. indexOf pat (a @ pat @ b) = Some k \<and> k \<le> length a"
proof (induction a)
  case Nil
  have "startsWith (pat @ b) pat"
    by (simp add: startsWith_def)
  then show ?case
    by (cases "pat @ b") auto
next
  case (Cons c a)
  then show ?case by auto
qed


text \<open>
  The first occurrence of a pattern in a text that continues with the pattern: it is the
  one that begins the continuation when the pattern does not occur before it and no end
  of the text before it, continued by a beginning of the pattern, makes the pattern.
\<close>

lemma indexOf_continued:
  assumes none: "indexOf pat s = None"
    and across: "\<And>r. r \<noteq> [] \<Longrightarrow> length r < length pat \<Longrightarrow> (\<exists>j. r = drop j s) \<Longrightarrow>
                  r @ take (length pat - length r) pat \<noteq> pat"
  shows "indexOf pat (s @ pat @ X) = Some (length s)"
proof -
  have "\<not> startsWith (drop j s @ pat @ X) pat" if j: "j < length s" for j
  proof (cases "length pat \<le> length (drop j s)")
    case True
    then have e: "take (length pat) (drop j s @ pat @ X) = take (length pat) (drop j s)"
      by simp
    have "\<not> startsWith (drop j s) pat"
      by (rule indexOf_None_drop [OF none])
    then show ?thesis
      unfolding startsWith_def e .
  next
    case False
    then have e: "take (length pat) (drop j s @ pat @ X) = drop j s @ take (length pat - length (drop j s)) pat"
      by simp
    have "drop j s @ take (length pat - length (drop j s)) pat \<noteq> pat"
      using j False by (intro across) auto
    then show ?thesis
      unfolding startsWith_def e .
  qed
  moreover have "startsWith (pat @ X) pat"
    by (simp add: startsWith_def)
  ultimately show ?thesis
    by (rule indexOf_first)
qed

subsection \<open>The tag and the fence\<close>

text \<open>
  The tag does not overlap itself, so the first tag after a prose without a tag is the one
  that follows the prose; the first fence after an inner text without a fence is the one
  that follows it when the inner text does not end in a backquote.
\<close>

lemma no_tag_indexOf: "no_tag s \<longleftrightarrow> indexOf ''```json'' s = None"
  unfolding no_tag_def indexOf_None_iff ..

lemma no_fence_indexOf: "no_fence s \<longleftrightarrow> indexOf ''```'' s = None \<and> (s = [] \<or> last s \<noteq> CHR ''`'')"
  unfolding no_fence_def indexOf_None_iff ..

lemma unclosed_cases:
  "opening \<noteq> [] \<Longrightarrow> unclosed opening closing s \<Longrightarrow>
   indexOf opening s = None
   \<or> (\<exists>i. indexOf opening s = Some i \<and> indexOf closing (drop (i + length opening) s) = None)"
proof (induction s)
  case Nil
  then show ?case by simp
next
  case (Cons c cs)
  show ?case
  proof (cases "startsWith (c # cs) opening")
    case True
    then have "indexOf closing (drop (0 + length opening) (c # cs)) = None"
      using Cons.prems unfolding indexOf_None_iff startsWith_prefix by simp
    moreover have "indexOf opening (c # cs) = Some 0"
      using True by simp
    ultimately show ?thesis by blast
  next
    case False
    then have "unclosed opening closing cs"
      using Cons.prems unfolding startsWith_prefix by simp
    from Cons.IH [OF Cons.prems(1) this] show ?thesis
    proof (elim disjE exE conjE)
      assume "indexOf opening cs = None"
      then show ?thesis using False by simp
    next
      fix i
      assume "indexOf opening cs = Some i" "indexOf closing (drop (i + length opening) cs) = None"
      then have "indexOf opening (c # cs) = Some (Suc i)
        \<and> indexOf closing (drop (Suc i + length opening) (c # cs)) = None"
        using False by simp
      then show ?thesis by (intro disjI2 exI)
    qed
  qed
qed

lemma unclosed_without_opening: "indexOf opening s = None \<Longrightarrow> unclosed opening closing s"
proof (induction s)
  case Nil
  then show ?case by simp
next
  case (Cons c cs)
  then have "\<not> startsWith (c # cs) opening" "indexOf opening cs = None"
    by (auto split: if_splits)
  then show ?case
    using Cons.IH unfolding startsWith_prefix by simp
qed

lemma unclosed_without_closing:
  "indexOf opening s = Some i \<Longrightarrow> indexOf closing (drop (i + length opening) s) = None \<Longrightarrow>
   unclosed opening closing s"
proof (induction s arbitrary: i)
  case Nil
  then show ?case by simp
next
  case (Cons c cs)
  show ?case
  proof (cases "startsWith (c # cs) opening")
    case True
    then have "i = 0" using Cons.prems(1) by simp
    then show ?thesis
      using True Cons.prems(2) unfolding startsWith_prefix indexOf_None_iff by simp
  next
    case False
    then obtain i' where i: "i = Suc i'" "indexOf opening cs = Some i'"
      using Cons.prems(1) by auto
    then have "unclosed opening closing cs"
      using Cons.IH [of i'] Cons.prems(2) by simp
    then show ?thesis
      using False unfolding startsWith_prefix by simp
  qed
qed

lemma tag_length: "length ''```json'' = 7" "''```json'' \<noteq> []"
  by simp_all

lemma no_block_cases:
  "no_block s \<Longrightarrow>
   indexOf ''```json'' s = None \<or> (\<exists>i. indexOf ''```json'' s = Some i \<and> indexOf ''```'' (drop (i + 7) s) = None)"
  using unclosed_cases [OF tag_length(2), of "''```''" s] unfolding no_block_def tag_length(1) .

lemma no_block_without_tag: "indexOf ''```json'' s = None \<Longrightarrow> no_block s"
  unfolding no_block_def by (rule unclosed_without_opening)

lemma no_block_without_fence:
  "indexOf ''```json'' s = Some i \<Longrightarrow> indexOf ''```'' (drop (i + 7) s) = None \<Longrightarrow> no_block s"
  using unclosed_without_closing [of "''```json''" s i "''```''"] unfolding no_block_def tag_length(1) .

lemma last_take:
  assumes "0 < m" and "m \<le> length xs"
  shows "last (take m xs) = xs ! (m - 1)"
proof -
  have "take m xs \<noteq> []" using assms by auto
  then have "last (take m xs) = take m xs ! (length (take m xs) - 1)"
    by (rule last_conv_nth)
  then show ?thesis using assms by simp
qed

lemma tag_letters: "k < 6 \<Longrightarrow> ''```json'' ! k \<noteq> CHR ''n''"
proof -
  assume "k < 6"
  then have "k = 0 \<or> k = 1 \<or> k = 2 \<or> k = 3 \<or> k = 4 \<or> k = 5"
    by arith
  then show ?thesis
    by (elim disjE) simp_all
qed

lemma first_tag:
  assumes "no_tag prose"
  shows "indexOf ''```json'' (prose @ ''```json'' @ X) = Some (length prose)"
proof (rule indexOf_continued)
  show "indexOf ''```json'' prose = None"
    using assms by (simp add: no_tag_indexOf)
next
  fix r :: string
  define m where "m = length ''```json'' - length r"
  assume r: "r \<noteq> []" "length r < length ''```json''"
  then have m: "0 < m" "m \<le> length ''```json''" "m - 1 < 6"
    unfolding m_def by (cases r; simp)+
  show "r @ take (length ''```json'' - length r) ''```json'' \<noteq> ''```json''"
  proof
    assume "r @ take (length ''```json'' - length r) ''```json'' = ''```json''"
    then have "last (r @ take m ''```json'') = last ''```json''"
      unfolding m_def by (rule arg_cong)
    moreover have "take m ''```json'' \<noteq> []"
      using m(1) by (cases m) simp_all
    moreover have "last (take m ''```json'') = ''```json'' ! (m - 1)"
      using m(1,2) by (rule last_take)
    ultimately have "''```json'' ! (m - 1) = CHR ''n''"
      by simp
    then show False
      using tag_letters [OF m(3)] by blast
  qed
qed

lemma first_fence:
  assumes "no_fence inner"
  shows "indexOf ''```'' (inner @ ''```'' @ X) = Some (length inner)"
proof (rule indexOf_continued)
  show "indexOf ''```'' inner = None"
    using assms by (simp add: no_fence_indexOf)
next
  fix r :: string
  assume r: "r \<noteq> []" "length r < length ''```''" "\<exists>j. r = drop j inner"
  then have l: "last r \<noteq> CHR ''`''"
    using assms by (auto simp: no_fence_indexOf)
  show "r @ take (length ''```'' - length r) ''```'' \<noteq> ''```''"
  proof
    assume "r @ take (length ''```'' - length r) ''```'' = ''```''"
    then have "r = take (length r) ''```''"
      by (metis append_eq_conv_conj)
    then have "set r \<subseteq> set ''```''"
      by (metis set_take_subset)
    then have "last r = CHR ''`''"
      using last_in_set [OF r(1)] by auto
    with l show False by blast
  qed
qed

lemma no_fence_dropWhile: "no_fence inner \<Longrightarrow> no_fence (dropWhile js_space inner)"
proof -
  assume a: "no_fence inner"
  have d: "dropWhile js_space inner = drop (length (takeWhile js_space inner)) inner"
    by (rule dropWhile_eq_drop)
  have "indexOf ''```'' (dropWhile js_space inner) = None"
    using a unfolding d no_fence_indexOf by (simp add: indexOf_None_suffix)
  moreover have "dropWhile js_space inner = [] \<or> last (dropWhile js_space inner) \<noteq> CHR ''`''"
  proof (cases "dropWhile js_space inner = []")
    case False
    then have "last (dropWhile js_space inner) = last inner"
      by (metis append_take_drop_id d last_appendR)
    moreover have "inner \<noteq> []" using False by auto
    ultimately show ?thesis using a by (simp add: no_fence_indexOf)
  qed simp
  ultimately show ?thesis by (simp add: no_fence_indexOf)
qed

lemma dropWhile_before_fence:
  "dropWhile js_space (inner @ ''```'' @ X) = dropWhile js_space inner @ ''```'' @ X"
  by (simp add: dropWhile_append js_space_def)

text \<open>One match.\<close>

lemma json_blocks_step:
  assumes "no_tag prose" and "no_fence inner"
  shows "json_blocks (prose @ ''```json'' @ inner @ ''```'' @ rest) = trim inner # json_blocks rest"
proof -
  have i: "indexOf ''```json'' (prose @ ''```json'' @ inner @ ''```'' @ rest) = Some (length prose)"
    by (rule first_tag [OF assms(1)])
  have "drop (length prose + 7) (prose @ ''```json'' @ inner @ ''```'' @ rest) = inner @ ''```'' @ rest"
    by simp
  then have d: "dropWhile js_space (drop (length prose + 7) (prose @ ''```json'' @ inner @ ''```'' @ rest))
      = dropWhile js_space inner @ ''```'' @ rest"
    using dropWhile_before_fence [of inner rest] by simp
  have j: "indexOf ''```'' (dropWhile js_space inner @ ''```'' @ rest) = Some (length (dropWhile js_space inner))"
    by (rule first_fence [OF no_fence_dropWhile [OF assms(2)]])
  have t: "take (length (dropWhile js_space inner)) (dropWhile js_space inner @ ''```'' @ rest) = dropWhile js_space inner"
    by simp
  have r: "drop (length (dropWhile js_space inner) + 3) (dropWhile js_space inner @ ''```'' @ rest) = rest"
    by simp
  show ?thesis
    unfolding json_blocks.simps [of "prose @ ''```json'' @ inner @ ''```'' @ rest"] i option.case Let_def d j t r trim_def
    by (rule refl)
qed

lemma json_blocks_none: "no_block tail \<Longrightarrow> json_blocks tail = []"
proof -
  assume "no_block tail"
  from no_block_cases [OF this] show ?thesis
  proof (elim disjE exE conjE)
    assume "indexOf ''```json'' tail = None"
    then show ?thesis by (subst json_blocks.simps) simp
  next
    fix i
    assume i: "indexOf ''```json'' tail = Some i" and f: "indexOf ''```'' (drop (i + 7) tail) = None"
    have "indexOf ''```'' (drop (length (takeWhile js_space (drop (i + 7) tail))) (drop (i + 7) tail)) = None"
      by (rule indexOf_None_suffix [OF f])
    then have "indexOf ''```'' (dropWhile js_space (drop (i + 7) tail)) = None"
      unfolding dropWhile_eq_drop [symmetric] .
    then show ?thesis
      using i by (subst json_blocks.simps) simp
  qed
qed

lemma json_blocks_fenced_reply:
  "well_fenced blocks tail \<Longrightarrow> json_blocks (fenced_reply blocks tail) = map (\<lambda>b. trim (snd b)) blocks"
proof (induction blocks)
  case Nil
  then show ?case by (simp add: well_fenced_def json_blocks_none)
next
  case (Cons b blocks)
  then have "no_tag (fst b)" "no_fence (snd b)" "well_fenced blocks tail"
    by (simp_all add: well_fenced_def)
  then show ?case
    using Cons.IH json_blocks_step [of "fst b" "snd b" "fenced_reply blocks tail"] by simp
qed


text \<open>Every text reads as prose, fenced blocks and a tail without a block.\<close>

lemma indexOf_Some_length:
  "indexOf pat s = Some i \<Longrightarrow> pat \<noteq> [] \<Longrightarrow> i < length s"
proof (induction s arbitrary: i)
  case Nil
  then show ?case by (auto split: if_splits)
next
  case (Cons c cs)
  then show ?case by (auto split: if_splits)
qed

lemma fenced_reading:
  "\<exists>blocks tail. str = fenced_reply blocks tail \<and> well_fenced blocks tail"
proof (induction "length str" arbitrary: str rule: less_induct)
  case less
  show ?case
  proof (cases "indexOf ''```json'' str")
    case None
    then have "str = fenced_reply [] str \<and> well_fenced [] str"
      by (simp add: well_fenced_def no_block_without_tag)
    then show ?thesis by blast
  next
    case tag: (Some i)
    define X where "X = drop (i + 7) str"
    have "length ''```json'' = 7"
      by simp
    then have str: "str = take i str @ ''```json'' @ X"
      using indexOf_Some_split [OF tag] unfolding X_def by metis
    show ?thesis
    proof (cases "indexOf ''```'' X")
      case None
      then have "str = fenced_reply [] str \<and> well_fenced [] str"
        using tag no_block_without_fence [of str i] by (simp add: well_fenced_def X_def)
      then show ?thesis by blast
    next
      case fence: (Some j)
      define inner where "inner = take j X"
      define rest where "rest = drop (j + 3) X"
      have "length ''```'' = 3"
        by simp
      then have X: "X = inner @ ''```'' @ rest"
        using indexOf_Some_split [OF fence] unfolding inner_def rest_def by metis
      have j: "length inner = j"
        using indexOf_Some_length [OF fence] by (simp add: inner_def)
      have "length rest < length str"
        using arg_cong [OF str, of length] arg_cong [OF X, of length] by simp
      then obtain blocks tail where r: "rest = fenced_reply blocks tail" "well_fenced blocks tail"
        using less by blast
      have nt: "no_tag (take i str)"
        unfolding no_tag_indexOf by (rule indexOf_Some_before [OF _ tag]) simp
      have n1: "indexOf ''```'' inner = None"
        unfolding inner_def by (rule indexOf_Some_before [OF _ fence]) simp
      have n2: "inner = [] \<or> last inner \<noteq> CHR ''`''"
      proof (rule ccontr)
        assume "\<not> (inner = [] \<or> last inner \<noteq> CHR ''`'')"
        then have "inner = butlast inner @ ''`''"
          by (metis append_butlast_last_id)
        then have "X = butlast inner @ ''```'' @ (''`'' @ rest)"
          using X by (metis append.assoc append_Cons append_Nil)
        then obtain k where "indexOf ''```'' X = Some k" "k \<le> length (butlast inner)"
          using indexOf_at_most [of "''```''" "butlast inner" "''`'' @ rest"] by auto
        moreover have "length (butlast inner) < j"
          using j \<open>\<not> (inner = [] \<or> last inner \<noteq> CHR ''`'')\<close> by (cases inner) auto
        ultimately show False
          using fence by simp
      qed
      have "str = fenced_reply ((take i str, inner) # blocks) tail"
        using str X r(1) by simp
      moreover have "well_fenced ((take i str, inner) # blocks) tail"
        using nt n1 n2 r(2) by (simp add: well_fenced_def no_fence_indexOf)
      ultimately show ?thesis by blast
    qed
  qed
qed

text \<open>
  C7. Every reply reads as prose, fenced blocks tagged \<open>json\<close> and a tail without a block,
  and however it is read so, the blocks that the scan finds are the inner texts of the
  reading without the white space around them. Each block is parsed by itself and the
  results are put one after the other: an array gives its elements, an object gives
  itself, a block that does not parse gives nothing and the loop goes on. The reply as a
  whole is parsed only when it has no block. So a reply with two blocks, an array of two
  and a text that does not parse, gives exactly the two elements.
\<close>

theorem extractSpans_block_by_block:
  "(\<exists>blocks tail. response = fenced_reply blocks tail \<and> well_fenced blocks tail)
   \<and> (\<forall>blocks tail. response = fenced_reply blocks tail \<and> well_fenced blocks tail \<longrightarrow>
         json_blocks response = map (\<lambda>b. trim (snd b)) blocks
         \<and> extractSpansFromResponse P response =
             (if blocks = [] then block_objects P response
              else concat (map (\<lambda>b. block_objects P (trim (snd b))) blocks)))
   \<and> (\<forall>prose1 inner1 prose2 inner2 tail x y.
         response = fenced_reply [(prose1, inner1), (prose2, inner2)] tail
         \<and> well_fenced [(prose1, inner1), (prose2, inner2)] tail
         \<and> JSON_parse P (trim inner1) = Some (JArray [x, y]) \<and> JSON_parse P (trim inner2) = None \<longrightarrow>
         extractSpansFromResponse P response = [x, y])"
proof -
  have e: "extractSpansFromResponse P response =
      (if json_blocks response = [] then block_objects P response
       else concat (map (block_objects P) (json_blocks response)))"
    by (auto simp: extractSpansFromResponse_def Let_def parseBlocks_acc block_objects_def
        split: option.splits json.splits)
  have b: "json_blocks response = map (\<lambda>b. trim (snd b)) blocks
         \<and> extractSpansFromResponse P response =
             (if blocks = [] then block_objects P response
              else concat (map (\<lambda>b. block_objects P (trim (snd b))) blocks))"
    if "response = fenced_reply blocks tail \<and> well_fenced blocks tail" for blocks tail
  proof -
    have jb: "json_blocks response = map (\<lambda>b. trim (snd b)) blocks"
      using that json_blocks_fenced_reply [of blocks tail] by simp
    show ?thesis
      unfolding e jb by (simp add: comp_def)
  qed
  have "extractSpansFromResponse P response = [x, y]"
    if "response = fenced_reply [(prose1, inner1), (prose2, inner2)] tail
         \<and> well_fenced [(prose1, inner1), (prose2, inner2)] tail
         \<and> JSON_parse P (trim inner1) = Some (JArray [x, y]) \<and> JSON_parse P (trim inner2) = None"
    for prose1 inner1 prose2 inner2 tail x y
    using that b [of "[(prose1, inner1), (prose2, inner2)]" tail] by (simp add: block_objects_def)
  with b fenced_reading [of response] show ?thesis
    by blast
qed


text \<open>
  The reply \<open>reply_two_blocks\<close> on the small platform, whose parser knows the first block
  and rejects the second.
\<close>

theorem extractSpans_block_by_block_witness:
  "reply_two_blocks = fenced_reply [(''Here: '', [CHR 0x0A] @ ''[{},{}]'' @ [CHR 0x0A]),
                                    ('' and '', [CHR 0x0A] @ ''{bad'' @ [CHR 0x0A])] []
   \<and> well_fenced [(''Here: '', [CHR 0x0A] @ ''[{},{}]'' @ [CHR 0x0A]),
                   ('' and '', [CHR 0x0A] @ ''{bad'' @ [CHR 0x0A])] []
   \<and> json_blocks reply_two_blocks = [''[{},{}]'', ''{bad'']
   \<and> JSON_parse demo ''[{},{}]'' = Some (JArray [JObject [], JObject []])
   \<and> JSON_parse demo ''{bad'' = None
   \<and> extractSpansFromResponse demo reply_two_blocks = [JObject [], JObject []]"
proof -
  let ?blocks = "[(''Here: '', [CHR 0x0A] @ ''[{},{}]'' @ [CHR 0x0A]), ('' and '', [CHR 0x0A] @ ''{bad'' @ [CHR 0x0A])]"
  have r: "reply_two_blocks = fenced_reply ?blocks []"
    by (simp add: reply_two_blocks_def)
  have w: "well_fenced ?blocks []"
    by (simp add: well_fenced_def no_tag_def no_fence_def no_block_def sublist_Cons_right)
  have t: "trim ([CHR 0x0A] @ ''[{},{}]'' @ [CHR 0x0A]) = ''[{},{}]''" "trim ([CHR 0x0A] @ ''{bad'' @ [CHR 0x0A]) = ''{bad''"
    by (simp_all add: trim_def trimEnd_def js_space_def)
  have p: "JSON_parse demo ''[{},{}]'' = Some (JArray [JObject [], JObject []])" "JSON_parse demo ''{bad'' = None"
    by (simp_all add: demo_def)
  note inst = extractSpans_block_by_block [of reply_two_blocks demo]
  have j: "json_blocks reply_two_blocks = [''[{},{}]'', ''{bad'']"
    using inst [THEN conjunct2, THEN conjunct1, rule_format, of ?blocks "[]"] r w t by simp
  have x: "extractSpansFromResponse demo reply_two_blocks = [JObject [], JObject []]"
    using inst [THEN conjunct2, THEN conjunct2, rule_format,
        of "''Here: ''" "[CHR 0x0A] @ ''[{},{}]'' @ [CHR 0x0A]" "'' and ''" "[CHR 0x0A] @ ''{bad'' @ [CHR 0x0A]" "[]"
           "JObject []" "JObject []"] r w t p
    by simp
  from r w j p x show ?thesis by blast
qed

subsection \<open>Credential encryption\<close>

lemma byte_char_byte: "(of_nat (of_char (char_of (unat (b :: byte))) :: nat) :: byte) = b"
proof -
  have "unat b < 256" using unsigned_less [of b, where ?'a = nat] by simp
  then show ?thesis by simp
qed

lemma char_byte_char: "char_of (unat (of_nat (of_char c :: nat) :: byte)) = c"
  by (simp add: unsigned_of_nat take_bit_eq_mod)

lemma bytes_string_bytes:
  "map (\<lambda>c. of_nat (of_char c)) (map (\<lambda>b. char_of (unat b)) (bytes :: byte list)) = bytes"
  by (induction bytes) (simp_all add: byte_char_byte del: of_char_of)

lemma base64_roundtrip:
  "\<forall>s. atob P (btoa P s) = Some s \<Longrightarrow> base64ToBytes P (bytesToBase64 P bytes) = Inr bytes"
  by (simp add: base64ToBytes_def bytesToBase64_def bytes_string_bytes del: map_map)

lemma encryptApiKey_unfold:
  "encryptApiKey P apiKey userId r =
     (bytesToBase64 P (map r [0 ..< 16] @ map r [16 ..< 28]
        @ aes_gcm_encrypt P (pbkdf2 P (text_encode P userId) (map r [0 ..< 16]) 100000 ''SHA-256'' 256)
            (map r [16 ..< 28]) (text_encode P apiKey)),
      (\<lambda>i. r (i + 28)))"
proof -
  have "map (\<lambda>i. r (i + 16)) [0 ..< 12] = map r [16 ..< 28]"
    by (simp add: upt_rec [of 0] upt_rec [of "Suc _"])
  then show ?thesis
    by (simp add: encryptApiKey_def getRandomValues_def Let_def add.commute del: upt_rec_numeral)
qed


text \<open>
  C9. Under the laws of the primitives (AES-GCM decrypts what it encrypted under the same
  key and nonce, \<open>atob\<close> undoes \<open>btoa\<close>, \<open>TextDecoder\<close> undoes \<open>TextEncoder\<close> on the
  credential), decrypting the output of \<open>encryptApiKey\<close> with the same \<open>userId\<close> gives
  the credential back. The output is the base64 text of salt, nonce and ciphertext in
  that order: the salt is the next 16 bytes of the random source and the nonce the 12
  after them, so every call draws new ones; the key is PBKDF2 of the \<open>userId\<close> with that
  salt, 100000 iterations and SHA-256, 256 bits long; the ciphertext is AES-GCM of the
  credential under that key and nonce.
\<close>

theorem decryptApiKey_encryptApiKey:
  assumes "\<forall>k iv m. aes_gcm_decrypt P k iv (aes_gcm_encrypt P k iv m) = Some m"
    and "\<forall>s. atob P (btoa P s) = Some s"
    and "text_decode P (text_encode P apiKey) = apiKey"
  shows "decryptApiKey P (fst (encryptApiKey P apiKey userId r)) userId = Inr apiKey
    \<and> fst (encryptApiKey P apiKey userId r) =
        bytesToBase64 P (map r [0 ..< 16] @ map r [16 ..< 28]
          @ aes_gcm_encrypt P (pbkdf2 P (text_encode P userId) (map r [0 ..< 16]) 100000 ''SHA-256'' 256)
              (map r [16 ..< 28]) (text_encode P apiKey))
    \<and> snd (encryptApiKey P apiKey userId r) = (\<lambda>i. r (i + 28))"
proof -
  let ?salt = "map r [0 ..< 16]" and ?iv = "map r [16 ..< 28]"
  let ?ct = "aes_gcm_encrypt P (pbkdf2 P (text_encode P userId) ?salt 100000 ''SHA-256'' 256) ?iv (text_encode P apiKey)"
  have len: "length ?salt = 16" "length ?iv = 12" by simp_all
  have parts: "take 16 (?salt @ ?iv @ ?ct) = ?salt" "take 12 (drop 16 (?salt @ ?iv @ ?ct)) = ?iv"
    "drop 28 (?salt @ ?iv @ ?ct) = ?ct"
    using len by (simp_all del: upt_rec_numeral)
  have b64: "base64ToBytes P (bytesToBase64 P (?salt @ ?iv @ ?ct)) = Inr (?salt @ ?iv @ ?ct)"
    using assms(2) by (rule base64_roundtrip)
  have "decryptApiKey P (bytesToBase64 P (?salt @ ?iv @ ?ct)) userId = Inr apiKey"
    unfolding decryptApiKey_def b64 Let_def
    by (simp only: sum.case parts) (simp add: assms(1) assms(3))
  then show ?thesis
    by (simp add: encryptApiKey_unfold)
qed

text \<open>
  On the small platform, with the random source that counts: the credential \<open>sk-1\<close> of
  the user \<open>ana\<close> comes back, and the source has moved on by 28 bytes.
\<close>

theorem decryptApiKey_encryptApiKey_witness:
  "decryptApiKey demo (fst (encryptApiKey demo ''sk-1'' ''ana'' counting)) ''ana'' = Inr ''sk-1''
   \<and> snd (encryptApiKey demo ''sk-1'' ''ana'' counting) 0 = 28
   \<and> length (fst (encryptApiKey demo ''sk-1'' ''ana'' counting)) = 32"
proof -
  have a: "\<forall>k iv m. aes_gcm_decrypt demo k iv (aes_gcm_encrypt demo k iv m) = Some m"
    "\<forall>s. atob demo (btoa demo s) = Some s"
    by (simp_all add: demo_def)
  have "text_decode demo (text_encode demo s) = s" for s
    by (induction s) (simp_all add: demo_def char_byte_char)
  then have b: "text_decode demo (text_encode demo ''sk-1'') = ''sk-1''" .
  note inst = decryptApiKey_encryptApiKey [of demo "''sk-1''" "''ana''" counting, OF a b]
  have l: "length (bytesToBase64 demo bytes) = length bytes" for bytes
    by (simp add: bytesToBase64_def demo_def)
  have e: "length (aes_gcm_encrypt demo k iv m) = length m" "length (text_encode demo s) = length s" for k iv m s
    by (simp_all add: demo_def)
  have i1: "decryptApiKey demo (fst (encryptApiKey demo ''sk-1'' ''ana'' counting)) ''ana'' = Inr ''sk-1''"
    using inst by (rule conjunct1)
  have i2: "length (fst (encryptApiKey demo ''sk-1'' ''ana'' counting)) = 32"
    by (simp only: inst [THEN conjunct2, THEN conjunct1] l) (simp add: e)
  have i3: "snd (encryptApiKey demo ''sk-1'' ''ana'' counting) 0 = 28"
    by (simp only: inst [THEN conjunct2, THEN conjunct2]) (simp add: counting_def)
  from i1 i2 i3 show ?thesis by blast
qed

subsection \<open>The projection of a trace that has a contract record\<close>

lemma idb_get_put: "idb_get key (key x) (idb_put key x xs) = Some x"
proof -
  have "key x \<notin> set (map key (filter (\<lambda>y. key y \<noteq> key x) xs))"
    by auto
  then show ?thesis
    unfolding idb_get_def idb_put_def by (rule find_insort_key_fresh)
qed

lemma getContract_saveContract: "getContract (c_id c) (saveContract c db) = Some c"
  by (simp add: getContract_def saveContract_def idb_get_put)

lemma getContract_c_id: "getContract traceId db = Some c \<Longrightarrow> c_id c = traceId"
  by (auto simp: getContract_def idb_get_def find_Some_iff)

lemma getSpansByTrace_saveContract:
  "getSpansByTrace P traceId (saveContract c db) = getSpansByTrace P traceId db"
  by (simp add: getSpansByTrace_def querySpans_def saveContract_def Let_def cong: option.case_cong)

text \<open>
  The branch of \<open>updateContractFromSpans\<close> for a trace that has a record: the status
  follows the spans, \<open>cancelled\<close> before \<open>completed\<close>, and stays what it was when the
  trace has neither span; \<open>created_at\<close>, the title, the description, the parties and the
  metadata are not touched.
\<close>

lemma projection_of_existing:
  assumes "getContract traceId db = Some c"
    and "find (\<lambda>s. type s = ''contract.created'') (getSpansByTrace P traceId db) = Some creationSpan"
  shows "updateContractFromSpans P now traceId db =
     (Inr (), saveContract
        (c\<lparr>updated_at := now,
           c_spans := map id' (getSpansByTrace P traceId db),
           status := (case find (\<lambda>s. type s = ''contract.cancelled'') (getSpansByTrace P traceId db) of
                        Some cs \<Rightarrow> Cancelled
                      | None \<Rightarrow> (case find (\<lambda>s. type s = ''contract.completed'') (getSpansByTrace P traceId db) of
                                   Some cs \<Rightarrow> Completed
                                 | None \<Rightarrow> status c)),
           c_completed_at := (case find (\<lambda>s. type s = ''contract.cancelled'') (getSpansByTrace P traceId db) of
                        Some cs \<Rightarrow> completed_at cs
                      | None \<Rightarrow> (case find (\<lambda>s. type s = ''contract.completed'') (getSpansByTrace P traceId db) of
                                   Some cs \<Rightarrow> completed_at cs
                                 | None \<Rightarrow> c_completed_at c))\<rparr>) db)"
proof -
  have "getSpansByTrace P traceId db \<noteq> []"
    using assms(2) by auto
  then show ?thesis
    using assms by (simp add: updateContractFromSpans_def Let_def split: option.splits)
qed

text \<open>
  From the second projection on, projecting again over the same spans changes nothing
  but \<open>updated_at\<close>.
\<close>

lemma projection_of_existing_idempotent:
  assumes "getContract traceId db = Some c"
    and "find (\<lambda>s. type s = ''contract.created'') (getSpansByTrace P traceId db) = Some creationSpan"
    and "updateContractFromSpans P now1 traceId db = (r1, db1)"
    and "updateContractFromSpans P now2 traceId db1 = (r2, db2)"
  shows "\<exists>c1. getContract traceId db1 = Some c1 \<and> getContract traceId db2 = Some (c1\<lparr>updated_at := now2\<rparr>)
     \<and> created_at c1 = created_at c"
proof -
  let ?c1 = "c\<lparr>updated_at := now1,
           c_spans := map id' (getSpansByTrace P traceId db),
           status := (case find (\<lambda>s. type s = ''contract.cancelled'') (getSpansByTrace P traceId db) of
                        Some cs \<Rightarrow> Cancelled
                      | None \<Rightarrow> (case find (\<lambda>s. type s = ''contract.completed'') (getSpansByTrace P traceId db) of
                                   Some cs \<Rightarrow> Completed
                                 | None \<Rightarrow> status c)),
           c_completed_at := (case find (\<lambda>s. type s = ''contract.cancelled'') (getSpansByTrace P traceId db) of
                        Some cs \<Rightarrow> completed_at cs
                      | None \<Rightarrow> (case find (\<lambda>s. type s = ''contract.completed'') (getSpansByTrace P traceId db) of
                                   Some cs \<Rightarrow> completed_at cs
                                 | None \<Rightarrow> c_completed_at c))\<rparr>"
  have id: "c_id c = traceId" using assms(1) by (rule getContract_c_id)
  have db1: "db1 = saveContract ?c1 db"
    using projection_of_existing [OF assms(1,2), of now1] assms(3) by simp
  have g1: "getContract traceId db1 = Some ?c1"
    using getContract_saveContract [of ?c1 db] by (simp add: db1 id)
  have s1: "getSpansByTrace P traceId db1 = getSpansByTrace P traceId db"
    by (simp add: db1 getSpansByTrace_saveContract)
  have f1: "find (\<lambda>s. type s = ''contract.created'') (getSpansByTrace P traceId db1) = Some creationSpan"
    using assms(2) by (simp add: s1)
  have db2: "db2 = saveContract (?c1\<lparr>updated_at := now2\<rparr>) db1"
    using projection_of_existing [OF g1 f1, of now2] assms(4)
    by (cases c;
        cases "find (\<lambda>s. type s = ''contract.cancelled'') (getSpansByTrace P traceId db)";
        cases "find (\<lambda>s. type s = ''contract.completed'') (getSpansByTrace P traceId db)";
        simp add: s1)
  have "getContract traceId db2 = Some (?c1\<lparr>updated_at := now2\<rparr>)"
    using getContract_saveContract [of "?c1\<lparr>updated_at := now2\<rparr>" db1] by (simp add: db2 id)
  with g1 show ?thesis by simp
qed

text \<open>
  A span that \<open>appendToLedger\<close> signs gets its hash before it gets its confirmation, and
  the domain, the time and the signer of the confirmation are part of what is hashed:
  the text hashed for the stored span is not the text that was hashed when it was
  appended.
\<close>

lemma stored_span_hash_text_differs:
  "JSON_stringify (spanForHashing (Span_obj created1)) \<noteq> JSON_stringify (spanForHashing (Span_obj created1_stored))"
  by (simp add: spanForHashing_typed span_front_def opt_member_def SpanBody_obj_def JSON_stringify_def
      object_member_def QuoteJSONString_def quote_char_def created1_def created1_stored_def body0_def
      own_properties_def is_digit_def)

end
